(* ===== verification/Prelude.thy ===== *)
theory Prelude
  imports Complex_Main "HOL-Library.Multiset"
begin

text \<open>
  Shared vocabulary of the LegalBot development: the Python exceptions the
  retrieval code can raise, Python dictionaries as insertion-ordered association
  lists, Python list indexing and slicing, and numpy's mean (with NaN for an
  empty array).  The collection \<open>py_simps\<close> gathers the evaluation rules of
  these primitives so that component proofs can use them with \<open>simp add:\<close>.
\<close>

named_theorems py_simps "evaluation rules of the Python primitives"

section \<open>Errors\<close>

text \<open>
  The exceptions the modelled code can raise: \<open>KeyError\<close> for a missing
  dictionary key, \<open>IndexError\<close> for a list index out of range, \<open>ValueError\<close>
  for the input checks of scikit-learn's \<open>cosine_similarity\<close>.
\<close>

datatype py_error = KeyError | IndexError | ValueError

type_synonym 'a result = "py_error + 'a"

section \<open>Dictionaries\<close>

text \<open>
  A Python \<open>dict\<close> keeps its keys in insertion order; assigning to an existing
  key keeps its position, assigning to a new key appends it.  It is modelled as
  an association list whose keys are distinct.
\<close>

type_synonym ('k, 'v) pydict = "('k \<times> 'v) list"

definition dict_keys :: "('k, 'v) pydict \<Rightarrow> 'k list" where
  "dict_keys d = map fst d"

definition dict_wf :: "('k, 'v) pydict \<Rightarrow> bool" where
  "dict_wf d \<longleftrightarrow> distinct (dict_keys d)"

text \<open>\<open>d[k]\<close>: the value, or \<open>KeyError\<close>.\<close>

definition dict_get :: "('k, 'v) pydict \<Rightarrow> 'k \<Rightarrow> 'v result" where
  "dict_get d k = (case map_of d k of None \<Rightarrow> Inl KeyError | Some v \<Rightarrow> Inr v)"

text \<open>\<open>d[k] = v\<close>.\<close>

fun dict_set :: "('k, 'v) pydict \<Rightarrow> 'k \<Rightarrow> 'v \<Rightarrow> ('k, 'v) pydict" where
  "dict_set [] k v = [(k, v)]"
| "dict_set ((k', v') # d) k v =
     (if k' = k then (k, v) # d else (k', v') # dict_set d k v)"

section \<open>Lists\<close>

text \<open>\<open>xs[i]\<close> for a non-negative index (numpy's \<open>argsort\<close> indices are never negative).\<close>

definition py_get :: "'a list \<Rightarrow> nat \<Rightarrow> 'a result" where
  "py_get xs i = (if i < length xs then Inr (xs ! i) else Inl IndexError)"

text \<open>The list comprehension \<open>[xs[i] for i in is]\<close>: the first bad index raises.\<close>

fun py_gets :: "'a list \<Rightarrow> nat list \<Rightarrow> 'a list result" where
  "py_gets xs [] = Inr []"
| "py_gets xs (i # ix) =
     (case py_get xs i of
        Inl e \<Rightarrow> Inl e
      | Inr x \<Rightarrow> (case py_gets xs ix of Inl e \<Rightarrow> Inl e | Inr ys \<Rightarrow> Inr (x # ys)))"

text \<open>
  The slice \<open>xs[:k]\<close> for a Python integer \<open>k\<close>: a negative stop counts from the
  end and is clipped at \<open>0\<close>; a stop beyond the end is clipped at the length.
\<close>

definition py_take :: "int \<Rightarrow> 'a list \<Rightarrow> 'a list" where
  "py_take k xs = take (if 0 \<le> k then nat k else nat (int (length xs) + k)) xs"

section \<open>numpy's mean\<close>

text \<open>
  \<open>np.mean\<close> of an empty array is NaN (with a warning).  NaN is \<open>None\<close>; every
  comparison with it is false, which the callers write out.
\<close>

definition np_mean :: "'a::field list \<Rightarrow> 'a option" where
  "np_mean xs = (if xs = [] then None else Some (sum_list xs / of_nat (length xs)))"

section \<open>Lemmas\<close>

lemma dict_get_Inr [py_simps]: "dict_get d k = Inr v \<longleftrightarrow> map_of d k = Some v"
  by (simp add: dict_get_def split: option.splits)

lemma dict_get_Inl [py_simps]: "dict_get d k = Inl e \<longleftrightarrow> map_of d k = None \<and> e = KeyError"
  by (auto simp: dict_get_def split: option.splits)

lemma map_of_dict_set [py_simps]: "map_of (dict_set d k v) = (map_of d)(k \<mapsto> v)"
  by (induction d) (auto simp: fun_eq_iff)

lemma dict_keys_dict_set [py_simps]:
  "dict_keys (dict_set d k v) =
     (if k \<in> set (dict_keys d) then dict_keys d else dict_keys d @ [k])"
proof (induction d)
  case Nil
  then show ?case by (simp add: dict_keys_def)
next
  case (Cons p d)
  then show ?case by (cases p) (auto simp: dict_keys_def)
qed

lemma dict_wf_dict_set [py_simps]: "dict_wf d \<Longrightarrow> dict_wf (dict_set d k v)"
  by (simp add: dict_wf_def dict_keys_dict_set)

lemma py_gets_in_range [py_simps]:
  "\<forall>i\<in>set ix. i < length xs \<Longrightarrow> py_gets xs ix = Inr (map ((!) xs) ix)"
  by (induction ix) (auto simp: py_get_def)

lemma py_gets_Inr [py_simps]:
  "py_gets xs ix = Inr ys \<longleftrightarrow> (\<forall>i\<in>set ix. i < length xs) \<and> ys = map ((!) xs) ix"
  by (induction ix arbitrary: ys) (auto simp: py_get_def py_gets_in_range split: sum.splits)

lemma py_gets_Inl [py_simps]: "py_gets xs ix = Inl e \<Longrightarrow> e = IndexError"
  by (induction ix) (auto simp: py_get_def split: sum.splits if_splits)

lemma py_take_nonneg [py_simps]: "0 \<le> k \<Longrightarrow> py_take k xs = take (nat k) xs"
  by (simp add: py_take_def)

lemma py_take_neg [py_simps]:
  "k < 0 \<Longrightarrow> py_take k xs = take (length xs - nat (- k)) xs"
proof -
  assume "k < 0"
  then have "nat (int (length xs) + k) = length xs - nat (- k)" by arith
  with \<open>k < 0\<close> show ?thesis by (simp add: py_take_def)
qed

lemma length_py_take [py_simps]:
  "length (py_take k xs) =
     (if 0 \<le> k then min (nat k) (length xs) else length xs - nat (- k))"
  by (simp add: py_take_nonneg py_take_neg min.commute)

lemma py_take_is_take: "\<exists>m. py_take k xs = take m xs"
  by (auto simp: py_take_def)

lemma np_mean_None [py_simps]: "np_mean xs = None \<longleftrightarrow> xs = []"
  by (simp add: np_mean_def)

text \<open>The mean of a non-empty list lies between bounds of its elements.\<close>

lemma np_mean_Some: "np_mean xs = Some m \<Longrightarrow> xs \<noteq> [] \<and> m = sum_list xs / of_nat (length xs)"
  by (auto simp: np_mean_def split: if_splits)

lemma np_mean_le:
  fixes xs :: "'a::linordered_field list"
  assumes "np_mean xs = Some m" and "\<forall>x\<in>set xs. x \<le> hi"
  shows "m \<le> hi"
proof -
  from np_mean_Some [OF assms(1)] have ne: "xs \<noteq> []" and m: "m = sum_list xs / of_nat (length xs)"
    by auto
  from ne have n: "0 < (of_nat (length xs) :: 'a)" by simp
  have "sum_list xs \<le> of_nat (length xs) * hi"
    using sum_list_mono [of xs "\<lambda>x. x" "\<lambda>_. hi"] assms(2)
    by (simp add: sum_list_triv mult.commute)
  then show ?thesis using n m by (simp add: pos_divide_le_eq mult.commute)
qed

lemma np_mean_ge:
  fixes xs :: "'a::linordered_field list"
  assumes "np_mean xs = Some m" and "\<forall>x\<in>set xs. lo \<le> x"
  shows "lo \<le> m"
proof -
  from np_mean_Some [OF assms(1)] have ne: "xs \<noteq> []" and m: "m = sum_list xs / of_nat (length xs)"
    by auto
  from ne have n: "0 < (of_nat (length xs) :: 'a)" by simp
  have "of_nat (length xs) * lo \<le> sum_list xs"
    using sum_list_mono [of xs "\<lambda>_. lo" "\<lambda>x. x"] assms(2)
    by (simp add: sum_list_triv mult.commute)
  then show ?thesis using n m by (simp add: pos_le_divide_eq mult.commute)
qed

end
