(* ===== verification/Ranking.thy ===== *)
theory Ranking
  imports Prelude
begin

text \<open>
  The chunk ranking of \<open>retrieve_answer\<close> (src/rag_utils.py, line 28):
  \<^verbatim>\<open>top_indices = np.argsort(sims)[::-1][:top_k]\<close>
  \<open>np.argsort\<close> returns the indices of the array in ascending order of value.
  Its default kind, quicksort, is not documented to be stable (an introsort
  that sorts small partitions by insertion sort, or a vectorised sort on some
  processors), so the order of equal values is unspecified.  \<open>argsort\<close> is
  modelled as one admissible choice, the stable sort (\<open>sort_key\<close>);
  \<open>is_argsort\<close> states what every argsort promises (a permutation of the
  indices that sorts the values), and the lemmas on values hold for every
  such permutation, so the scores of the retriever do not depend on how ties
  are broken; only which of several tied chunks are shown does.  On an array
  without ties every argsort is the same, and \<open>argsort_perm_inverse\<close> shows
  that the argsort of a permutation of \<open>[0..<n]\<close> is its inverse.
\<close>

definition argsort :: "'a::linorder list \<Rightarrow> nat list" where
  "argsort xs = sort_key (\<lambda>i. xs ! i) [0..<length xs]"

definition is_argsort :: "'a::linorder list \<Rightarrow> nat list \<Rightarrow> bool" where
  "is_argsort xs p \<longleftrightarrow> mset p = mset [0..<length xs] \<and> sorted (map (\<lambda>i. xs ! i) p)"

definition top_indices :: "'a::linorder list \<Rightarrow> int \<Rightarrow> nat list" where
  "top_indices sims k = py_take k (rev (argsort sims))"

section \<open>Generic lemmas\<close>

lemma py_take_map [py_simps]: "py_take k (map f xs) = map f (py_take k xs)"
  by (simp add: py_take_def take_map)

lemma map_nth_upt: "map (\<lambda>i. xs ! i) [0..<length xs] = xs"
  by (rule nth_equalityI) simp_all

lemma sorted_wrt_take_prefix: "sorted_wrt R xs \<Longrightarrow> sorted_wrt R (take m xs)"
  by (metis append_take_drop_id sorted_wrt_append)

lemma sorted_wrt_take_drop:
  "sorted_wrt R xs \<Longrightarrow> x \<in> set (take m xs) \<Longrightarrow> y \<in> set (drop m xs) \<Longrightarrow> R x y"
  by (metis append_take_drop_id sorted_wrt_append)

section \<open>argsort\<close>

lemma mset_argsort: "mset (argsort xs) = mset [0..<length xs]"
  by (simp add: argsort_def)

lemma set_argsort [simp]: "set (argsort xs) = {..<length xs}"
  by (auto simp: argsort_def)

lemma length_argsort [simp]: "length (argsort xs) = length xs"
  by (simp add: argsort_def)

lemma distinct_argsort: "distinct (argsort xs)"
  by (simp add: argsort_def)

lemma argsort_is_argsort: "is_argsort xs (argsort xs)"
  by (simp add: is_argsort_def argsort_def)

text \<open>Whatever permutation an argsort returns, reading the values through it gives \<open>sort\<close>.\<close>

lemma is_argsort_values:
  assumes "is_argsort xs p"
  shows "map (\<lambda>i. xs ! i) p = sort xs"
proof -
  have "mset (map (\<lambda>i. xs ! i) p) = mset (map (\<lambda>i. xs ! i) [0..<length xs])"
    using assms unfolding is_argsort_def by (metis mset_map)
  also have "\<dots> = mset xs" by (simp add: map_nth_upt)
  finally have "mset (map (\<lambda>i. xs ! i) p) = mset xs" .
  moreover have "sorted (map (\<lambda>i. xs ! i) p)" using assms by (simp add: is_argsort_def)
  ultimately show ?thesis by (metis properties_for_sort)
qed

lemma argsort_values: "map (\<lambda>i. xs ! i) (argsort xs) = sort xs"
  by (rule is_argsort_values [OF argsort_is_argsort])

text \<open>The argsort of a permutation of \<open>[0..<n]\<close> is its inverse permutation.\<close>

lemma argsort_perm_inverse:
  assumes "mset p = mset [0..<length p]" and "i < length p"
  shows "p ! (argsort p ! i) = i"
proof -
  have "sort p = [0..<length p]"
    using assms(1) by (metis properties_for_sort sorted_upt)
  then have "map (\<lambda>j. p ! j) (argsort p) = [0..<length p]" by (simp add: argsort_values)
  then show ?thesis using assms(2) by (metis length_argsort nth_map nth_upt add_0)
qed

section \<open>Top-k indices\<close>

lemma top_indices_values:
  "map (\<lambda>i. sims ! i) (top_indices sims k) = py_take k (rev (sort sims))"
  by (simp add: top_indices_def rev_map [symmetric] argsort_values flip: py_take_map)

lemma top_indices_bound: "i \<in> set (top_indices sims k) \<Longrightarrow> i < length sims"
  using py_take_is_take [of k "rev (argsort sims)"]
  by (metis in_set_takeD lessThan_iff set_argsort set_rev top_indices_def)

lemma distinct_top_indices: "distinct (top_indices sims k)"
  using py_take_is_take [of k "rev (argsort sims)"]
  by (auto simp: top_indices_def distinct_argsort)

lemma length_top_indices:
  "length (top_indices sims k) =
     (if 0 \<le> k then min (nat k) (length sims) else length sims - nat (- k))"
  by (simp add: top_indices_def length_py_take)

lemma sorted_rev_sort: "sorted_wrt (\<ge>) (rev (sort xs))"
  by (simp add: sorted_wrt_rev)

text \<open>
  C12 (functional). The selected chunks come in non-increasing order of
  similarity.
\<close>

theorem top_indices_ranked: "sorted_wrt (\<ge>) (map (\<lambda>i. sims ! i) (top_indices sims k))"
proof -
  obtain m where "py_take k (rev (sort sims)) = take m (rev (sort sims))"
    using py_take_is_take by blast
  then show ?thesis
    using sorted_wrt_take_prefix [OF sorted_rev_sort [of sims], of m]
    by (simp add: top_indices_values)
qed

text \<open>
  C11 (functional). The selection is a top-k: no index left out has a greater
  similarity than an index selected.
\<close>

theorem top_indices_optimal:
  assumes "i \<in> set (top_indices sims k)" and "j < length sims"
    and "j \<notin> set (top_indices sims k)"
  shows "sims ! j \<le> sims ! i"
proof -
  let ?p = "rev (argsort sims)"
  obtain m where m: "top_indices sims k = take m ?p"
    using py_take_is_take [of k ?p] by (auto simp: top_indices_def)
  have "j \<in> set ?p" using assms(2) by simp
  then have "j \<in> set (drop m ?p)"
    using assms(3) m by (metis append_take_drop_id Un_iff set_append)
  then have j: "sims ! j \<in> set (drop m (map (\<lambda>i. sims ! i) ?p))"
    by (simp add: drop_map)
  have i: "sims ! i \<in> set (take m (map (\<lambda>i. sims ! i) ?p))"
    using assms(1) m by (simp add: take_map)
  have srt: "sorted_wrt (\<lambda>x y. y \<le> x) (map (\<lambda>i. sims ! i) ?p)"
    by (simp add: rev_map [symmetric] argsort_values sorted_rev_sort)
  have "(\<lambda>x y. y \<le> x) (sims ! i) (sims ! j)"
    by (rule sorted_wrt_take_drop [OF srt i j])
  then show ?thesis by simp
qed

text \<open>
  C13 (equivalence). The selected similarities, hence the label's score, are
  the same for every argsort implementation, however it orders ties.
\<close>

theorem top_indices_any_argsort:
  "is_argsort sims p \<Longrightarrow>
   map (\<lambda>i. sims ! i) (py_take k (rev p)) = map (\<lambda>i. sims ! i) (top_indices sims k)"
  by (simp add: top_indices_def rev_map [symmetric] is_argsort_values argsort_values
      flip: py_take_map)

theorem top_indices_optimal_witness:
  "2 \<in> set (top_indices [1, 0, 1 :: real] 2) \<and> (1::nat) < length [1, 0, 1 :: real] \<and>
   1 \<notin> set (top_indices [1, 0, 1 :: real] 2) \<and> [1, 0, 1 :: real] ! 1 \<le> [1, 0, 1 :: real] ! 2"
proof -
  have t: "top_indices [1, 0, 1 :: real] 2 = [2, 0]"
    by (simp add: top_indices_def argsort_def py_take_def)
  have "2 \<in> set (top_indices [1, 0, 1 :: real] 2)" "(1::nat) < length [1, 0, 1 :: real]"
    "1 \<notin> set (top_indices [1, 0, 1 :: real] 2)" by (simp_all add: t)
  with top_indices_optimal show ?thesis by blast
qed

theorem top_indices_any_argsort_witness:
  "is_argsort [1, 0, 1 :: real] [1, 2, 0] \<and>
   map (\<lambda>i. [1, 0, 1 :: real] ! i) (py_take 2 (rev [1, 2, 0])) =
   map (\<lambda>i. [1, 0, 1 :: real] ! i) (top_indices [1, 0, 1 :: real] 2)"
proof -
  have a: "is_argsort [1, 0, 1 :: real] [1, 2, 0]"
    by (simp add: is_argsort_def)
  show ?thesis using a top_indices_any_argsort [OF a, of 2] by simp
qed

end
