(* ===== verification/EmbeddingStore.thy ===== *)
theory EmbeddingStore
  imports Ranking
begin

text \<open>
  The embedding store of src/rag_utils.py (lines 7--14).  At import time the
  module loads the SentenceTransformer model, reads \<open>legal_knowledge.json\<close>
  into the dict \<open>knowledge\<close> (label \<open>\<rightarrow>\<close> list of chunk texts) and builds
  \<^verbatim>\<open>embeddings = {label: model.encode(texts) for label, texts in knowledge.items()}\<close>
  The model is an external collaborator: it is the parameter \<open>enc\<close>, a
  deterministic function from one text to its vector.  \<open>model.encode\<close> on a
  batch (\<open>encode\<close>) is modelled as sentence-transformers'
  \<open>SentenceTransformer.encode\<close> orders it: the texts are sorted by decreasing
  length (\<open>length_sorted_idx = np.argsort([-len(t) for t in texts])\<close>),
  encoded in that order, and put back in input order
  (\<open>[all_embeddings[i] for i in np.argsort(length_sorted_idx)]\<close>); batching
  and padding are not modelled, since \<open>enc\<close> encodes one text at a time.  The file read and the
  JSON parser are library code; their result is the parameter \<open>kn\<close>, a Python
  dict (distinct keys, insertion order).
  The invariant that retrieval relies on is \<open>aligned\<close>: the index has the same
  labels in the same order as the knowledge base, and every label has exactly
  one vector per chunk, the vector at position \<open>i\<close> being that of chunk \<open>i\<close>.
\<close>

type_synonym ('l, 'c) knowledge = "('l, 'c list) pydict"

text \<open>\<open>model.encode(texts)\<close> on a list of texts: length sort, encoding, order restoration.\<close>

definition encode :: "('a list \<Rightarrow> 'v) \<Rightarrow> 'a list list \<Rightarrow> 'v list" where
  "encode enc texts =
     (let length_sorted_idx = argsort (map (\<lambda>t. - int (length t)) texts);
          sentences_sorted = map (\<lambda>i. texts ! i) length_sorted_idx;
          all_embeddings = map enc sentences_sorted
      in map (\<lambda>i. all_embeddings ! i) (argsort length_sorted_idx))"

text \<open>The dict comprehension that builds \<open>embeddings\<close>.\<close>

definition build_index :: "('a list \<Rightarrow> 'v) \<Rightarrow> ('l, 'a list) knowledge \<Rightarrow> ('l, 'v) knowledge" where
  "build_index enc kn = map (\<lambda>(l, texts). (l, encode enc texts)) kn"

text \<open>The alignment invariant between the knowledge base and the index.\<close>

definition aligned :: "('l, 'c) knowledge \<Rightarrow> ('l, 'v) knowledge \<Rightarrow> bool" where
  "aligned kn emb \<longleftrightarrow>
     dict_wf kn \<and> dict_keys emb = dict_keys kn \<and>
     list_all2 (\<lambda>(_, cs) (_, es). length es = length cs) kn emb"

section \<open>Lemmas\<close>

text \<open>
  The order restoration is exact: whatever order the length sort chooses,
  the argsort of that permutation is its inverse, so \<open>encode\<close> returns the
  vectors in input order.
\<close>

lemma encode_eq_map: "encode enc texts = map enc texts"
proof -
  let ?p = "argsort (map (\<lambda>t. - int (length t)) texts)"
  have p: "mset ?p = mset [0..<length ?p]" and lp: "length ?p = length texts"
    using mset_argsort [of "map (\<lambda>t. - int (length t)) texts"] by simp_all
  have "map enc (map (\<lambda>i. texts ! i) ?p) ! (argsort ?p ! i) = enc (texts ! i)"
    if i: "i < length texts" for i
  proof -
    have "argsort ?p ! i < length ?p" using i lp by (metis length_argsort nth_mem set_argsort lessThan_iff)
    then show ?thesis using argsort_perm_inverse [OF p] i lp by simp
  qed
  then show ?thesis by (simp add: encode_def Let_def list_eq_iff_nth_eq lp)
qed

lemma length_build_index [simp]: "length (build_index enc kn) = length kn"
  by (simp add: build_index_def)

lemma dict_keys_build_index [simp]: "dict_keys (build_index enc kn) = dict_keys kn"
  by (induction kn) (auto simp: build_index_def dict_keys_def)

lemma map_of_build_index:
  "map_of (build_index enc kn) l = map_option (encode enc) (map_of kn l)"
  by (induction kn) (auto simp: build_index_def)

lemma build_index_aligned: "dict_wf kn \<Longrightarrow> aligned kn (build_index enc kn)"
  using dict_keys_build_index [of enc kn]
  by (auto simp: aligned_def build_index_def encode_eq_map list_all2_map2 list_all2_same)

text \<open>
  Looking up a label of the index in an aligned knowledge base finds the
  label's chunks, one per vector.
\<close>

lemma aligned_lookup:
  assumes "aligned kn emb" and "(l, es) \<in> set emb"
  shows "\<exists>cs. map_of kn l = Some cs \<and> length cs = length es"
proof -
  from assms(1) have d: "distinct (map fst kn)" and k: "map fst emb = map fst kn"
    and a: "list_all2 (\<lambda>(_, cs) (_, es). length es = length cs) kn emb"
    by (auto simp: aligned_def dict_wf_def dict_keys_def)
  from assms(2) obtain i where i: "i < length emb" "emb ! i = (l, es)"
    by (auto simp: in_set_conv_nth)
  have len: "length kn = length emb" using a by (rule list_all2_lengthD)
  obtain cs where c: "kn ! i = (l, cs)"
    using k i by (metis fst_conv len nth_map prod.collapse)
  have "length es = length cs"
    using list_all2_nthD [OF a, of i] i c len by simp
  moreover have "map_of kn l = Some cs"
    using d i c len by (metis map_of_is_SomeI nth_mem)
  ultimately show ?thesis by auto
qed

section \<open>Properties\<close>

text \<open>
  C14 (invariant). Alignment of the precomputed index: although
  \<open>model.encode\<close> encodes a label's chunks longest first, for every chunk
  position \<open>i\<close> the index holds one vector per chunk and its vector at \<open>i\<close> is
  the encoding of the chunk at \<open>i\<close>.
\<close>

theorem build_index_alignment:
  assumes "map_of kn l = Some cs" and "i < length cs"
  shows "\<exists>es. map_of (build_index enc kn) l = Some es \<and> length es = length cs \<and> es ! i = enc (cs ! i)"
proof -
  have "map_of (build_index enc kn) l = Some (encode enc cs)"
    using assms(1) by (simp add: map_of_build_index)
  then show ?thesis using assms(2) by (simp add: encode_eq_map)
qed

theorem build_index_alignment_witness:
  "map_of [(''a'', [''x'', ''yy''])] ''a'' = Some [''x'', ''yy''] \<and> (0::nat) < length [''x'', ''yy''] \<and>
   (\<exists>es. map_of (build_index length [(''a'', [''x'', ''yy''])]) ''a'' = Some es \<and>
      length es = length [''x'', ''yy''] \<and> es ! 0 = length (''x''::string))"
proof -
  have m: "map_of [(''a'', [''x'', ''yy''])] ''a'' = Some [''x'', ''yy'']" by simp
  have i: "(0::nat) < length [''x'', ''yy'']" by simp
  show ?thesis using m i build_index_alignment [OF m i, of length] by (simp only: nth_Cons_0)
qed

end
