(* ===== verification/Retriever.thy ===== *)
theory Retriever
  imports Ranking EmbeddingStore
begin

text \<open>
  The retrieval loop of \<open>retrieve_answer\<close> (src/rag_utils.py, lines 16--37),
  stated over any similarity function \<open>sf\<close> that maps a label's embedding
  matrix to its row of similarities or raises: the theory RagUtils
  instantiates it with scikit-learn's cosine similarity of the query.
  The score type is any ordered field; the initial best score is \<open>0\<close>,
  a label replaces the current best only if its score is strictly greater
  (so on a tie the earlier label in dict order stays), and a NaN mean (\<open>None\<close>)
  never compares greater.  The loop looks the winning label up in the
  knowledge dict and reads its chunks at the selected indices, which raises
  \<open>KeyError\<close> or \<open>IndexError\<close> when the index and the knowledge base disagree.

  The abstract specification \<open>retrieve_spec\<close> scans every label first
  (\<open>scan_labels\<close>), then chooses the first label whose score is the greatest
  positive one (\<open>best_spec\<close>).  The refinement lemma says the loop computes
  exactly that whenever the knowledge base and the index are aligned.
\<close>

type_synonym ('l, 'a, 'c) retrieval = "'l option \<times> 'a \<times> 'c list"

text \<open>Lines 28--29: the selected indices and the mean of their similarities.\<close>

definition label_rank :: "'a::linordered_field list \<Rightarrow> int \<Rightarrow> 'a option \<times> nat list" where
  "label_rank sims k = (let ti = top_indices sims k in (np_mean (map (\<lambda>i. sims ! i) ti), ti))"

text \<open>Lines 25--35: the loop over \<open>embeddings.items()\<close> with the running best.\<close>

fun retrieve_loop ::
  "('e \<Rightarrow> 'a::linordered_field list result) \<Rightarrow> ('l, 'c) knowledge \<Rightarrow> int \<Rightarrow>
   ('l \<times> 'e) list \<Rightarrow> ('l, 'a, 'c) retrieval \<Rightarrow> ('l, 'a, 'c) retrieval result" where
  "retrieve_loop sf kn k [] acc = Inr acc"
| "retrieve_loop sf kn k ((l, embs) # es) (bl, bs, tc) =
     (case sf embs of
        Inl e \<Rightarrow> Inl e
      | Inr sims \<Rightarrow>
          (case label_rank sims k of
             (Some avg, ti) \<Rightarrow>
               (if bs < avg then
                  (case dict_get kn l of
                     Inl e \<Rightarrow> Inl e
                   | Inr chunks \<Rightarrow>
                       (case py_gets chunks ti of
                          Inl e \<Rightarrow> Inl e
                        | Inr ctx \<Rightarrow> retrieve_loop sf kn k es (Some l, avg, ctx)))
                else retrieve_loop sf kn k es (bl, bs, tc))
           | (None, ti) \<Rightarrow> retrieve_loop sf kn k es (bl, bs, tc)))"

text \<open>Line 22 and the loop: the initial state is \<open>(None, 0, [])\<close>.\<close>

definition retrieve_with ::
  "('e \<Rightarrow> 'a::linordered_field list result) \<Rightarrow> ('l, 'c) knowledge \<Rightarrow> ('l \<times> 'e) list \<Rightarrow>
   int \<Rightarrow> ('l, 'a, 'c) retrieval result" where
  "retrieve_with sf kn emb k = retrieve_loop sf kn k emb (None, 0, [])"

section \<open>Abstract specification\<close>

text \<open>Every label's score and selected indices, in dict order; the first error stops the scan.\<close>

fun scan_labels ::
  "('e \<Rightarrow> 'a::linordered_field list result) \<Rightarrow> int \<Rightarrow> ('l \<times> 'e) list \<Rightarrow>
   ('l \<times> 'a option \<times> nat list) list result" where
  "scan_labels sf k [] = Inr []"
| "scan_labels sf k ((l, embs) # es) =
     (case sf embs of
        Inl e \<Rightarrow> Inl e
      | Inr sims \<Rightarrow>
          (case scan_labels sf k es of
             Inl e \<Rightarrow> Inl e
           | Inr cs \<Rightarrow> Inr ((l, label_rank sims k) # cs)))"

text \<open>The labels whose score is a number (not NaN), with that score.\<close>

fun scored :: "('l \<times> 'a option \<times> nat list) list \<Rightarrow> ('l \<times> 'a \<times> nat list) list" where
  "scored [] = []"
| "scored ((l, Some s, ti) # cs) = (l, s, ti) # scored cs"
| "scored ((l, None, ti) # cs) = scored cs"

definition cand_score :: "'l \<times> 'a \<times> nat list \<Rightarrow> 'a" where
  "cand_score c = fst (snd c)"

text \<open>The first candidate whose score is the greatest one.\<close>

definition first_max :: "('l \<times> 'a::linorder \<times> nat list) list \<Rightarrow> ('l \<times> 'a \<times> nat list) option" where
  "first_max ps = find (\<lambda>p. cand_score p = Max (cand_score ` set ps)) ps"

text \<open>
  The specified choice: among the labels with a positive score, the first one
  with the greatest score; none when no label scores above \<open>0\<close>.
\<close>

definition best_spec ::
  "('l \<times> 'a::linordered_field option \<times> nat list) list \<Rightarrow> ('l \<times> 'a \<times> nat list) option" where
  "best_spec cs = (let ps = filter (\<lambda>p. 0 < cand_score p) (scored cs) in
                   if ps = [] then None else first_max ps)"

text \<open>The result tuple of a choice: the chunk texts at the chosen indices.\<close>

definition render ::
  "('l, 'c) knowledge \<Rightarrow> ('l \<times> 'a::zero \<times> nat list) option \<Rightarrow> ('l, 'a, 'c) retrieval" where
  "render kn b =
     (case b of
        None \<Rightarrow> (None, 0, [])
      | Some (l, s, ti) \<Rightarrow>
          (Some l, s, (case map_of kn l of None \<Rightarrow> [] | Some cs \<Rightarrow> map (\<lambda>i. cs ! i) ti)))"

definition retrieve_spec ::
  "('e \<Rightarrow> 'a::linordered_field list result) \<Rightarrow> ('l, 'c) knowledge \<Rightarrow> ('l \<times> 'e) list \<Rightarrow>
   int \<Rightarrow> ('l, 'a, 'c) retrieval result" where
  "retrieve_spec sf kn emb k =
     (case scan_labels sf k emb of Inl e \<Rightarrow> Inl e | Inr cs \<Rightarrow> Inr (render kn (best_spec cs)))"

text \<open>The implementation's choice as a pure fold over the scanned labels.\<close>

definition best_score :: "('l \<times> 'a::zero \<times> nat list) option \<Rightarrow> 'a" where
  "best_score b = (case b of None \<Rightarrow> 0 | Some p \<Rightarrow> cand_score p)"

fun fold_best ::
  "('l \<times> 'a::linordered_field \<times> nat list) option \<Rightarrow> ('l \<times> 'a \<times> nat list) list \<Rightarrow>
   ('l \<times> 'a \<times> nat list) option" where
  "fold_best b [] = b"
| "fold_best b (p # ps) = fold_best (if best_score b < cand_score p then Some p else b) ps"


section \<open>Lemmas\<close>

lemma find_filter_weaker:
  "(\<And>x. P x \<Longrightarrow> Q x) \<Longrightarrow> find P (filter Q xs) = find P xs"
  by (induction xs) auto

lemma first_max_Cons_top:
  assumes "\<forall>q\<in>set qs. cand_score q \<le> cand_score p"
  shows "first_max (p # qs) = Some p"
proof -
  have "Max (cand_score ` set (p # qs)) = cand_score p"
    using assms by (intro Max_eqI) auto
  then show ?thesis by (simp add: first_max_def)
qed

lemma first_max_Cons_below:
  assumes ne: "filter (\<lambda>q. cand_score p < cand_score q) qs \<noteq> []"
  shows "first_max (p # qs) = first_max (filter (\<lambda>q. cand_score p < cand_score q) qs)"
proof -
  let ?f = "filter (\<lambda>q. cand_score p < cand_score q) qs"
  let ?M = "Max (cand_score ` set ?f)"
  have fin: "finite (cand_score ` set ?f)" by simp
  have nE: "cand_score ` set ?f \<noteq> {}" using ne by (metis image_is_empty set_empty)
  have Mf: "?M \<in> cand_score ` set ?f" using fin nE by (rule Max_in)
  then have gt: "cand_score p < ?M" by auto
  have M: "Max (cand_score ` set (p # qs)) = ?M"
  proof (rule Max_eqI)
    show "finite (cand_score ` set (p # qs))" by simp
  next
    fix y assume "y \<in> cand_score ` set (p # qs)"
    then obtain q where q: "q \<in> set (p # qs)" "y = cand_score q" by blast
    show "y \<le> ?M"
    proof (cases "cand_score p < cand_score q")
      case True
      with q have "y \<in> cand_score ` set ?f" by auto
      with fin show ?thesis by simp
    next
      case False
      with q gt show ?thesis by auto
    qed
  next
    show "?M \<in> cand_score ` set (p # qs)" using Mf by auto
  qed
  have "first_max (p # qs) = find (\<lambda>q. cand_score q = ?M) (p # qs)"
    unfolding first_max_def M ..
  also have "\<dots> = find (\<lambda>q. cand_score q = ?M) qs"
    using gt by auto
  also have "\<dots> = find (\<lambda>q. cand_score q = ?M) ?f"
    using gt by (intro find_filter_weaker [symmetric]) auto
  also have "\<dots> = first_max ?f"
    by (simp add: first_max_def)
  finally show ?thesis .
qed

lemma fold_best_eq:
  "fold_best b ps =
     (let qs = filter (\<lambda>p. best_score b < cand_score p) ps in
      if qs = [] then b else first_max qs)"
proof (induction ps arbitrary: b)
  case Nil
  then show ?case by simp
next
  case (Cons p ps)
  show ?case
  proof (cases "best_score b < cand_score p")
    case True
    let ?R = "filter (\<lambda>q. best_score b < cand_score q) ps"
    let ?Q = "filter (\<lambda>q. cand_score p < cand_score q) ps"
    have RQ: "filter (\<lambda>q. cand_score p < cand_score q) ?R = ?Q"
      using True by (auto intro: filter_cong)
    have IH: "fold_best (Some p) ps = (if ?Q = [] then Some p else first_max ?Q)"
      using Cons.IH [of "Some p"] by (simp add: best_score_def)
    show ?thesis
    proof (cases "?Q = []")
      case True
      then have "\<forall>q\<in>set ?R. cand_score q \<le> cand_score p"
        by (auto simp: filter_empty_conv)
      then show ?thesis using IH True \<open>best_score b < cand_score p\<close>
        by (simp add: first_max_Cons_top)
    next
      case False
      then have "filter (\<lambda>q. cand_score p < cand_score q) ?R \<noteq> []" using RQ by simp
      then have "first_max (p # ?R) = first_max ?Q"
        using first_max_Cons_below RQ by metis
      then show ?thesis using IH False \<open>best_score b < cand_score p\<close> by simp
    qed
  next
    case False
    then show ?thesis using Cons.IH [of b] by simp
  qed
qed

lemma render_score: "fst (snd (render kn b)) = best_score b"
  by (auto simp: render_def best_score_def cand_score_def split: option.splits)

lemma render_Some:
  "map_of kn l = Some cs \<Longrightarrow> render kn (Some (l, s, ti)) = (Some l, s, map (\<lambda>i. cs ! i) ti)"
  by (simp add: render_def)

lemma label_rank_bound:
  "label_rank sims k = (m, ti) \<Longrightarrow> i \<in> set ti \<Longrightarrow> i < length sims"
  by (auto simp: label_rank_def Let_def dest: top_indices_bound)

lemma retrieve_loop_scan:
  assumes cov: "\<forall>(l, e)\<in>set es. \<exists>cs. map_of kn l = Some cs \<and> length cs = length e"
    and len: "\<forall>e sims. sf e = Inr sims \<longrightarrow> length sims = length e"
  shows "retrieve_loop sf kn k es (render kn b) =
           (case scan_labels sf k es of
              Inl err \<Rightarrow> Inl err
            | Inr cs \<Rightarrow> Inr (render kn (fold_best b (scored cs))))"
  using cov
proof (induction es arbitrary: b)
  case Nil
  then show ?case by simp
next
  case (Cons le es)
  obtain l e where le: "le = (l, e)" by fastforce
  obtain bl bs tc where r: "render kn b = (bl, bs, tc)" by (cases "render kn b") auto
  then have bs: "bs = best_score b" using render_score [of kn b] by simp
  from Cons.prems le obtain cs where cs: "map_of kn l = Some cs" "length cs = length e" by auto
  have IH: "\<And>b. retrieve_loop sf kn k es (render kn b) =
           (case scan_labels sf k es of Inl err \<Rightarrow> Inl err
            | Inr cs \<Rightarrow> Inr (render kn (fold_best b (scored cs))))"
    using Cons.prems by (intro Cons.IH) simp
  show ?case
  proof (cases "sf e")
    case (Inl err)
    then show ?thesis using le r by simp
  next
    case (Inr sims)
    obtain m ti where lr: "label_rank sims k = (m, ti)" by fastforce
    have ti: "\<forall>i\<in>set ti. i < length cs"
      using label_rank_bound [OF lr] len Inr cs(2) by auto
    show ?thesis
    proof (cases m)
      case None
      then show ?thesis using le r Inr lr IH [of b] by (simp split: sum.splits)
    next
      case (Some avg)
      show ?thesis
      proof (cases "bs < avg")
        case True
        have "render kn (Some (l, avg, ti)) = (Some l, avg, map (\<lambda>i. cs ! i) ti)"
          using cs(1) by (rule render_Some)
        then show ?thesis
          using le r Inr lr Some True bs cs(1) ti IH [of "Some (l, avg, ti)"]
          by (simp add: dict_get_def py_gets_in_range cand_score_def split: sum.splits)
      next
        case False
        then show ?thesis
          using le r Inr lr Some bs IH [of b]
          by (simp add: cand_score_def split: sum.splits)
      qed
    qed
  qed
qed


lemma best_score_None [simp]: "best_score None = 0"
  by (simp add: best_score_def)

lemma fold_best_None: "fold_best None (scored cs) = best_spec cs"
  by (simp add: fold_best_eq best_spec_def Let_def)

text \<open>
  Functional refinement: on an aligned index, and for a similarity function
  that returns one similarity per chunk, the loop computes the specification.
\<close>

lemma retrieve_with_spec:
  assumes "aligned kn emb" and "\<forall>e sims. sf e = Inr sims \<longrightarrow> length sims = length e"
  shows "retrieve_with sf kn emb k = retrieve_spec sf kn emb k"
proof -
  have cov: "\<forall>(l, e)\<in>set emb. \<exists>cs. map_of kn l = Some cs \<and> length cs = length e"
    using aligned_lookup [OF assms(1)] by blast
  have "retrieve_with sf kn emb k = retrieve_loop sf kn k emb (render kn None)"
    by (simp add: retrieve_with_def render_def)
  also have "\<dots> = retrieve_spec sf kn emb k"
    using retrieve_loop_scan [OF cov assms(2), of k None]
    by (simp add: retrieve_spec_def fold_best_None split: sum.splits)
  finally show ?thesis .
qed

section \<open>The running best\<close>

text \<open>
  What the loop keeps true of its accumulator, whatever the index: either no
  label has been chosen, the score is \<open>0\<close> and there are no contexts, or a
  label has been chosen with a positive score that is the mean of some of its
  similarities, hence at most any upper bound of the similarities.
\<close>

definition acc_ok :: "'a::linordered_field \<Rightarrow> ('l, 'a, 'c) retrieval \<Rightarrow> bool" where
  "acc_ok hi r \<longleftrightarrow>
     (case r of (None, s, tc) \<Rightarrow> s = 0 \<and> tc = [] | (Some l, s, tc) \<Rightarrow> 0 < s \<and> s \<le> hi)"

lemma label_rank_mean_le:
  assumes "label_rank sims k = (Some avg, ti)" and "\<forall>x\<in>set sims. x \<le> hi"
  shows "avg \<le> hi"
proof -
  have "\<forall>x\<in>set (map (\<lambda>i. sims ! i) ti). x \<le> hi"
    using assms by (auto simp: label_rank_def Let_def dest: top_indices_bound)
  moreover have "np_mean (map (\<lambda>i. sims ! i) ti) = Some avg"
    using assms(1) by (auto simp: label_rank_def Let_def)
  ultimately show ?thesis by (metis np_mean_le)
qed

lemma retrieve_loop_acc_ok:
  "\<forall>e sims. sf e = Inr sims \<longrightarrow> (\<forall>x\<in>set sims. x \<le> hi) \<Longrightarrow>
   acc_ok hi acc \<Longrightarrow> retrieve_loop sf kn k es acc = Inr r \<Longrightarrow> acc_ok hi r"
proof (induction sf kn k es acc rule: retrieve_loop.induct)
  case (1 sf kn k acc)
  then show ?case by simp
next
  case (2 sf kn k l embs es bl bs tc)
  show ?case
  proof (cases "sf embs")
    case (Inl e)
    then show ?thesis using "2.prems" by simp
  next
    case (Inr sims)
    obtain m ti where lr: "label_rank sims k = (m, ti)" by fastforce
    show ?thesis
    proof (cases m)
      case None
      then show ?thesis using "2.IH"(1) [OF Inr lr [symmetric]] "2.prems" Inr lr by simp
    next
      case (Some avg)
      have "\<forall>x\<in>set sims. x \<le> hi" using "2.prems"(1) Inr by blast
      then have hi: "avg \<le> hi" using label_rank_mean_le [of sims k avg ti hi] lr Some by simp
      show ?thesis
      proof (cases "bs < avg")
        case True
        have pos: "0 < avg"
          using "2.prems"(2) True by (auto simp: acc_ok_def split: option.splits)
        show ?thesis
          using "2.IH"(2) [OF Inr lr [symmetric] Some True] "2.prems" Inr lr Some True pos hi
          by (auto simp: acc_ok_def split: sum.splits)
      next
        case False
        then show ?thesis
          using "2.IH"(3) [OF Inr lr [symmetric] Some False] "2.prems" Inr lr Some by simp
      qed
    qed
  qed
qed

lemma retrieve_with_acc_ok:
  assumes "\<forall>e sims. sf e = Inr sims \<longrightarrow> (\<forall>x\<in>set sims. x \<le> hi)"
    and "retrieve_with sf kn emb k = Inr r"
  shows "acc_ok hi r"
proof -
  have "acc_ok hi (None, 0, [])" by (simp add: acc_ok_def)
  with assms show ?thesis
    using retrieve_loop_acc_ok [OF assms(1)] by (simp add: retrieve_with_def)
qed

section \<open>Scans and the specified choice\<close>

lemma scan_labels_Inr:
  "\<forall>(l, e)\<in>set es. \<exists>sims. sf e = Inr sims \<Longrightarrow> \<exists>cs. scan_labels sf k es = Inr cs"
  by (induction es) (auto split: sum.splits)

lemma scan_labels_Inl_src:
  "scan_labels sf k es = Inl err \<Longrightarrow> \<exists>(l, e)\<in>set es. sf e = Inl err"
  by (induction es) (auto split: sum.splits)

lemma scan_labels_Inl:
  "(l, e) \<in> set es \<Longrightarrow> sf e = Inl err \<Longrightarrow> \<exists>err'. scan_labels sf k es = Inl err'"
  by (induction es) (auto split: sum.splits)

lemma scan_labels_mem:
  "scan_labels sf k es = Inr cs \<Longrightarrow> c \<in> set cs \<Longrightarrow>
   \<exists>l e sims. (l, e) \<in> set es \<and> sf e = Inr sims \<and> c = (l, label_rank sims k)"
  by (induction es arbitrary: cs) (fastforce split: sum.splits)+

lemma scored_mem: "(l, s, ti) \<in> set (scored cs) \<Longrightarrow> (l, Some s, ti) \<in> set cs"
  by (induction cs rule: scored.induct) auto

lemma first_max_Some:
  assumes "first_max ps = Some p"
  shows "\<exists>pre post. ps = pre @ p # post \<and> (\<forall>q\<in>set pre. cand_score q < cand_score p)
           \<and> (\<forall>q\<in>set post. cand_score q \<le> cand_score p)"
proof -
  let ?M = "Max (cand_score ` set ps)"
  from assms obtain i where i: "i < length ps" "cand_score (ps ! i) = ?M" "p = ps ! i"
    and before: "\<forall>j<i. cand_score (ps ! j) \<noteq> ?M"
    unfolding first_max_def find_Some_iff by blast
  have le: "\<forall>q\<in>set ps. cand_score q \<le> ?M" by simp
  have ps: "ps = take i ps @ p # drop (Suc i) ps"
    using i by (simp add: id_take_nth_drop)
  have "\<forall>q\<in>set (take i ps). cand_score q < cand_score p"
  proof
    fix q assume "q \<in> set (take i ps)"
    then obtain j where "j < i" "q = ps ! j" using i(1)
      by (auto simp: in_set_conv_nth)
    then show "cand_score q < cand_score p"
      using before le i by (auto simp: order.strict_iff_order)
  qed
  moreover have "\<forall>q\<in>set (drop (Suc i) ps). cand_score q \<le> cand_score p"
    using le i by (auto dest: in_set_dropD)
  ultimately show ?thesis using ps by blast
qed

lemma filter_eq_append_Cons:
  "filter P xs = pre' @ p # post' \<Longrightarrow>
   \<exists>pre post. xs = pre @ p # post \<and> filter P pre = pre' \<and> filter P post = post'"
proof (induction pre' arbitrary: xs)
  case Nil
  then obtain us vs where "xs = us @ p # vs" "\<forall>u\<in>set us. \<not> P u" "post' = filter P vs"
    by (auto simp: filter_eq_Cons_iff)
  then show ?case by (intro exI [of _ us] exI [of _ vs]) simp
next
  case (Cons a pre')
  then obtain us vs where xs: "xs = us @ a # vs" "\<forall>u\<in>set us. \<not> P u" "P a"
    and rest: "filter P vs = pre' @ p # post'"
    by (auto simp: filter_eq_Cons_iff)
  from Cons.IH [OF rest] obtain pre post where "vs = pre @ p # post"
    "filter P pre = pre'" "filter P post = post'" by blast
  with xs show ?case by (intro exI [of _ "us @ a # pre"] exI [of _ post]) simp
qed

lemma first_max_nonempty: "ps \<noteq> [] \<Longrightarrow> first_max ps \<noteq> None"
proof -
  assume "ps \<noteq> []"
  then have "Max (cand_score ` set ps) \<in> cand_score ` set ps" by simp
  then obtain x where "x \<in> set ps" "cand_score x = Max (cand_score ` set ps)"
    by (metis imageE)
  then show "first_max ps \<noteq> None" unfolding first_max_def find_None_iff by blast
qed

lemma best_spec_None: "best_spec cs = None \<longleftrightarrow> (\<forall>q\<in>set (scored cs). cand_score q \<le> 0)"
proof
  assume none: "best_spec cs = None"
  have "filter (\<lambda>p. 0 < cand_score p) (scored cs) = []"
  proof (rule ccontr)
    assume ne: "filter (\<lambda>p. 0 < cand_score p) (scored cs) \<noteq> []"
    with first_max_nonempty [OF ne] none show False by (simp add: best_spec_def Let_def)
  qed
  then show "\<forall>q\<in>set (scored cs). cand_score q \<le> 0"
    unfolding filter_empty_conv by (blast intro: leI)
next
  assume "\<forall>q\<in>set (scored cs). cand_score q \<le> 0"
  then have "filter (\<lambda>p. 0 < cand_score p) (scored cs) = []"
    unfolding filter_empty_conv by (blast dest: leD)
  then show "best_spec cs = None" by (simp add: best_spec_def)
qed

lemma best_spec_Some:
  assumes "best_spec cs = Some (l, s, ti)"
  shows "0 < s \<and> (\<exists>pre post. scored cs = pre @ (l, s, ti) # post
           \<and> (\<forall>q\<in>set pre. cand_score q < s) \<and> (\<forall>q\<in>set post. cand_score q \<le> s))"
proof -
  let ?ps = "filter (\<lambda>p. 0 < cand_score p) (scored cs)"
  from assms have fm: "first_max ?ps = Some (l, s, ti)"
    by (auto simp: best_spec_def Let_def split: if_splits)
  from first_max_Some [OF fm] obtain pre' post' where
    ps: "?ps = pre' @ (l, s, ti) # post'"
    and lt: "\<forall>q\<in>set pre'. cand_score q < s" and le: "\<forall>q\<in>set post'. cand_score q \<le> s"
    by (auto simp: cand_score_def)
  have "(l, s, ti) \<in> set ?ps" using ps by simp
  then have pos: "0 < s" by (simp add: cand_score_def)
  from filter_eq_append_Cons [OF ps] obtain pre post where
    split: "scored cs = pre @ (l, s, ti) # post"
    and fpre: "filter (\<lambda>p. 0 < cand_score p) pre = pre'"
    and fpost: "filter (\<lambda>p. 0 < cand_score p) post = post'" by blast
  have "\<forall>q\<in>set pre. cand_score q < s"
  proof
    fix q assume q: "q \<in> set pre"
    show "cand_score q < s"
    proof (cases "0 < cand_score q")
      case True
      with q fpre lt show ?thesis by auto
    next
      case False
      with pos show ?thesis by simp
    qed
  qed
  moreover have "\<forall>q\<in>set post. cand_score q \<le> s"
  proof
    fix q assume q: "q \<in> set post"
    show "cand_score q \<le> s"
    proof (cases "0 < cand_score q")
      case True
      with q fpost le show ?thesis by auto
    next
      case False
      with pos show ?thesis by simp
    qed
  qed
  ultimately show ?thesis using pos split by blast
qed

lemma label_rank_0: "label_rank sims 0 = (None, [])"
  by (simp add: label_rank_def top_indices_def py_take_def np_mean_def)

lemma retrieve_loop_k0: "retrieve_loop sf kn 0 es acc = Inr r \<Longrightarrow> r = acc"
proof (induction sf kn "0::int" es acc rule: retrieve_loop.induct)
  case (1 sf kn acc)
  then show ?case by simp
next
  case (2 sf kn l embs es bl bs tc)
  then show ?case by (auto simp: label_rank_0 split: sum.splits)
qed

section \<open>Number of contexts\<close>

lemma retrieve_loop_contexts_le:
  "0 \<le> k \<Longrightarrow> length (snd (snd acc)) \<le> nat k \<Longrightarrow> retrieve_loop sf kn k es acc = Inr r \<Longrightarrow>
   length (snd (snd r)) \<le> nat k"
proof (induction sf kn k es acc rule: retrieve_loop.induct)
  case (1 sf kn k acc)
  then show ?case by simp
next
  case (2 sf kn k l embs es bl bs tc)
  show ?case
  proof (cases "sf embs")
    case (Inl e)
    then show ?thesis using "2.prems" by simp
  next
    case (Inr sims)
    obtain m ti where lr: "label_rank sims k = (m, ti)" by fastforce
    have ti: "length ti \<le> nat k"
      using lr "2.prems"(1) by (auto simp: label_rank_def Let_def length_top_indices)
    show ?thesis
    proof (cases m)
      case None
      then show ?thesis using "2.IH"(1) [OF Inr lr [symmetric]] "2.prems" Inr lr by simp
    next
      case (Some avg)
      show ?thesis
      proof (cases "bs < avg")
        case True
        show ?thesis
          using "2.IH"(2) [OF Inr lr [symmetric] Some True] "2.prems" Inr lr Some True ti
          by (auto simp: py_gets_Inr split: sum.splits)
      next
        case False
        then show ?thesis
          using "2.IH"(3) [OF Inr lr [symmetric] Some False] "2.prems" Inr lr Some by simp
      qed
    qed
  qed
qed

lemma retrieve_with_contexts_le:
  "0 \<le> k \<Longrightarrow> retrieve_with sf kn emb k = Inr (bl, bs, tc) \<Longrightarrow> length tc \<le> nat k"
  using retrieve_loop_contexts_le [of k "(None, 0, [])" sf kn emb "(bl, bs, tc)"]
  by (simp add: retrieve_with_def)

end
