(* ===== verification/Similarity.thy ===== *)
theory Similarity
  imports Prelude
begin

text \<open>
  Cosine similarity as scikit-learn computes it in
  \<open>cosine_similarity(q_emb, embs)[0]\<close> (src/rag_utils.py, line 26): both
  arguments are validated, every row is normalised to unit Euclidean length
  (\<open>sklearn.preprocessing.normalize\<close>, which leaves a zero row unchanged,
  since its zero norm is replaced by one), and the result is the dot
  product of the normalised query with each normalised chunk embedding.
  Floating-point rounding is not modelled: vectors are lists of reals.
  The validation raises \<open>ValueError\<close> for a query of dimension zero, for an
  empty chunk matrix (the encoder returns a one-dimensional empty array for a
  label with no chunks) and for rows whose dimension differs from the query's.
  The zero-norm guard of \<open>normalize_row\<close> is kept as the library writes it;
  in HOL, where \<open>x / 0 = 0\<close>, it does not change the value.
  Lemmas: the Cauchy--Schwarz inequality on lists, the bound
  \<open>-1 \<le> cos_sim u v \<le> 1\<close>, and the shape and error cases of \<open>cosine_row\<close>.
\<close>

type_synonym vector = "real list"

definition dot :: "real list \<Rightarrow> real list \<Rightarrow> real" where
  "dot u v = sum_list (map2 (*) u v)"

definition row_norm :: "real list \<Rightarrow> real" where
  "row_norm v = sqrt (dot v v)"

definition normalize_row :: "real list \<Rightarrow> real list" where
  "normalize_row v = (let n = row_norm v in if n = 0 then v else map (\<lambda>x. x / n) v)"

definition cos_sim :: "real list \<Rightarrow> real list \<Rightarrow> real" where
  "cos_sim u v = dot (normalize_row u) (normalize_row v)"

text \<open>One row of \<open>cosine_similarity(X, Y)\<close> for a one-row \<open>X\<close>.\<close>

definition cosine_row :: "vector \<Rightarrow> vector list \<Rightarrow> real list result" where
  "cosine_row q embs =
     (if q = [] \<or> embs = [] then Inl ValueError
      else if list_all (\<lambda>e. length e = length q) embs then Inr (map (cos_sim q) embs)
      else Inl ValueError)"

section \<open>Lemmas\<close>

lemma dot_Nil [simp]: "dot [] v = 0" "dot u [] = 0"
  by (simp_all add: dot_def)

lemma dot_Cons [simp]: "dot (x # u) (y # v) = x * y + dot u v"
  by (simp add: dot_def)

lemma dot_self_nonneg: "0 \<le> dot v v"
  by (induction v) simp_all

lemma dot_comm: "dot u v = dot v u"
proof (induction u arbitrary: v)
  case Nil
  then show ?case by simp
next
  case (Cons a u)
  then show ?case by (cases v) (simp_all add: mult.commute)
qed

lemma cauchy_schwarz_step:
  fixes A B C x y :: real
  assumes "C\<^sup>2 \<le> A * B" "0 \<le> A" "0 \<le> B"
  shows "(C + x * y)\<^sup>2 \<le> (A + x * x) * (B + y * y)"
proof -
  let ?P = "A * y\<^sup>2" and ?Q = "B * x\<^sup>2"
  have PQ: "0 \<le> ?P + ?Q" using assms(2,3) by simp
  have "(2 * C * x * y)\<^sup>2 = 4 * (C\<^sup>2 * (x\<^sup>2 * y\<^sup>2))"
    by (simp add: power2_eq_square)
  also have "\<dots> \<le> 4 * (A * B * (x\<^sup>2 * y\<^sup>2))"
    using mult_right_mono [OF assms(1), of "x\<^sup>2 * y\<^sup>2"] by simp
  also have "\<dots> = 4 * ?P * ?Q"
    by (simp add: power2_eq_square)
  also have "\<dots> \<le> (?P + ?Q)\<^sup>2"
  proof -
    have "(?P + ?Q)\<^sup>2 - 4 * ?P * ?Q = (?P - ?Q)\<^sup>2"
      by (simp add: power2_eq_square algebra_simps)
    then show ?thesis using zero_le_power2 [of "?P - ?Q"] by linarith
  qed
  finally have sq: "(2 * C * x * y)\<^sup>2 \<le> (?P + ?Q)\<^sup>2" .
  have "2 * C * x * y \<le> ?P + ?Q"
    using sq PQ by (rule power2_le_imp_le)
  moreover have "(C + x * y)\<^sup>2 = C\<^sup>2 + 2 * C * x * y + x * x * (y * y)"
    by (simp add: power2_eq_square algebra_simps)
  moreover have "(A + x * x) * (B + y * y) = A * B + ?P + ?Q + x * x * (y * y)"
    by (simp add: power2_eq_square algebra_simps)
  ultimately show ?thesis using assms(1) by linarith
qed

lemma cauchy_schwarz: "(dot u v)\<^sup>2 \<le> dot u u * dot v v"
proof (induction u arbitrary: v)
  case Nil
  then show ?case by simp
next
  case (Cons x u)
  show ?case
  proof (cases v)
    case Nil
    then show ?thesis by simp
  next
    case (Cons y v')
    have "(dot u v')\<^sup>2 \<le> dot u u * dot v' v'" by (rule Cons.IH)
    then have "(dot u v' + x * y)\<^sup>2 \<le> (dot u u + x * x) * (dot v' v' + y * y)"
      by (rule cauchy_schwarz_step) (simp_all add: dot_self_nonneg)
    with Cons show ?thesis by (simp add: add.commute)
  qed
qed

lemma dot_scale: "dot (map (\<lambda>x. x / c) u) (map (\<lambda>x. x / d) v) = dot u v / (c * d)"
proof (induction u arbitrary: v)
  case Nil
  then show ?case by simp
next
  case (Cons a u)
  then show ?case by (cases v) (simp_all add: add_divide_distrib)
qed

lemma row_norm_nonneg: "0 \<le> row_norm v"
  by (simp add: row_norm_def dot_self_nonneg)

lemma row_norm_sq: "(row_norm v)\<^sup>2 = dot v v"
  by (simp add: row_norm_def dot_self_nonneg)

lemma row_norm_zero: "row_norm v = 0 \<longleftrightarrow> dot v v = 0"
  by (simp add: row_norm_def)

lemma dot_self_zero: "dot v v = 0 \<Longrightarrow> dot v w = 0"
proof -
  assume "dot v v = 0"
  then have "(dot v w)\<^sup>2 \<le> 0" using cauchy_schwarz [of v w] by simp
  then show "dot v w = 0" by simp
qed

lemma dot_normalize_self: "dot (normalize_row v) (normalize_row v) = (if row_norm v = 0 then 0 else 1)"
proof (cases "row_norm v = 0")
  case True
  then show ?thesis by (simp add: normalize_row_def row_norm_zero)
next
  case False
  then have "dot (normalize_row v) (normalize_row v) = dot v v / (row_norm v * row_norm v)"
    by (simp add: normalize_row_def dot_scale)
  also have "\<dots> = 1" using False by (simp add: row_norm_sq [symmetric] power2_eq_square)
  finally show ?thesis using False by simp
qed

lemma cos_sim_sq_le_one: "(cos_sim u v)\<^sup>2 \<le> 1"
proof -
  let ?a = "normalize_row u" and ?b = "normalize_row v"
  have "(cos_sim u v)\<^sup>2 \<le> dot ?a ?a * dot ?b ?b"
    unfolding cos_sim_def by (rule cauchy_schwarz)
  also have "\<dots> \<le> 1" by (simp add: dot_normalize_self)
  finally show ?thesis .
qed

lemma abs_cos_sim_le_one: "\<bar>cos_sim u v\<bar> \<le> 1"
  using cos_sim_sq_le_one [of u v] abs_le_square_iff [of "cos_sim u v" 1] by simp


lemma cos_sim_comm: "cos_sim u v = cos_sim v u"
  by (simp add: cos_sim_def dot_comm)

lemma cos_sim_self: "row_norm v \<noteq> 0 \<Longrightarrow> cos_sim v v = 1"
  by (simp add: cos_sim_def dot_normalize_self)

lemma cosine_row_Inr:
  "cosine_row q embs = Inr sims \<longleftrightarrow>
     q \<noteq> [] \<and> embs \<noteq> [] \<and> list_all (\<lambda>e. length e = length q) embs \<and> sims = map (cos_sim q) embs"
  by (auto simp: cosine_row_def)

lemma cosine_row_Inl: "cosine_row q embs = Inl e \<Longrightarrow> e = ValueError"
  by (auto simp: cosine_row_def split: if_splits)

lemma cosine_row_length: "cosine_row q embs = Inr sims \<Longrightarrow> length sims = length embs"
  by (auto simp: cosine_row_Inr)

lemma cosine_row_bounds:
  "cosine_row q embs = Inr sims \<Longrightarrow> x \<in> set sims \<Longrightarrow> -1 \<le> x \<and> x \<le> 1"
  using abs_cos_sim_le_one by (auto simp: cosine_row_Inr abs_le_iff)

lemma cosine_row_empty: "cosine_row q [] = Inl ValueError"
  by (simp add: cosine_row_def)

section \<open>Properties\<close>

text \<open>
  C10 (bounds). Cosine similarity as scikit-learn computes it lies in
  \<open>[-1, 1]\<close> for all vectors, zero vectors included (Cauchy--Schwarz).
\<close>

theorem cos_sim_bounds: "-1 \<le> cos_sim u v \<and> cos_sim u v \<le> 1"
  using abs_cos_sim_le_one [of u v] by linarith

end
