(* ===== verification/RagUtils.thy ===== *)
theory RagUtils
  imports Retriever Similarity
begin

text \<open>
  The module src/rag_utils.py as a whole.  Its import-time state (lines 7--14)
  is the record \<open>rag_module\<close>: the loaded \<open>knowledge\<close> dict and the precomputed
  \<open>embeddings\<close> dict, built once by \<open>rag_load\<close> and never mutated.
  \<open>retrieve_answer\<close> (lines 16--37) encodes the question with the same model
  (\<open>model.encode([question])\<close> is the one-row matrix of \<open>enc question\<close>) and runs
  the retrieval loop of the theory Retriever with scikit-learn's cosine row as
  the similarity.  The model is the parameter \<open>enc\<close>.  Labels (\<open>'l\<close>) and
  texts (\<open>'t\<close>) are type parameters: the JSON file gives strings, which the
  scenarios below use, and the theory App instantiates the texts with
  Python's code-point strings.
\<close>

type_synonym label = string
type_synonym chunk = string

record ('l, 't) rag_module =
  knowledge :: "('l, 't) knowledge"
  embeddings :: "('l, real list) knowledge"

definition rag_load :: "('a list \<Rightarrow> vector) \<Rightarrow> ('l, 'a list) knowledge \<Rightarrow> ('l, 'a list) rag_module" where
  "rag_load enc kn = \<lparr>knowledge = kn, embeddings = build_index enc kn\<rparr>"

definition retrieve_answer ::
  "('t \<Rightarrow> vector) \<Rightarrow> ('l, 't) rag_module \<Rightarrow> 't \<Rightarrow> int \<Rightarrow> ('l, real, 't) retrieval result" where
  "retrieve_answer enc m question top_k =
     retrieve_with (cosine_row (enc question)) (knowledge m) (embeddings m) top_k"

text \<open>
  The spec's Scenario A (spec.md, section 8) as data: two labels with one
  chunk each and an encoder that maps the question, the dowry chunk and every
  other text to fixed unit vectors.  A knowledge base with an empty label
  (Scenario E) and one with two equally good labels (Scenario D).
\<close>

definition enc_a :: "string \<Rightarrow> vector" where
  "enc_a t = (if t = ''Was dowry demanded?'' then [3/5, 4/5]
              else if t = ''Is the sky blue?'' then [0, -1]
              else if t = ''He demanded gold from her family.'' then [0, 1] else [1, 0])"

definition kb_a :: "(label, chunk) knowledge" where
  "kb_a = [(''dowry_demand'', [''He demanded gold from her family.'']),
           (''physical_abuse'', [''He hit her repeatedly.''])]"

definition kb_e :: "(label, chunk) knowledge" where
  "kb_e = [(''dowry_demand'', [''He demanded gold from her family.'']), (''empty'', [])]"

definition kb_c :: "(label, chunk) knowledge" where
  "kb_c = [(''physical_abuse'', [''He hit her.'', ''He demanded gold from her family.'', ''He hit her again.''])]"

definition kb_d :: "(label, chunk) knowledge" where
  "kb_d = [(''first'', [''He hit her repeatedly.'']), (''second'', [''He hit her again.''])]"

section \<open>Lemmas\<close>

lemmas rag_eval_simps =
  retrieve_answer_def rag_load_def retrieve_with_def build_index_def encode_eq_map
  cosine_row_def cos_sim_def normalize_row_def row_norm_def dot_def label_rank_def
  top_indices_def argsort_def py_take_def np_mean_def dict_get_def py_get_def
  dict_wf_def dict_keys_def

lemma cosine_row_length_ok: "\<forall>e sims. cosine_row q e = Inr sims \<longrightarrow> length sims = length e"
  by (auto simp: cosine_row_Inr)

lemma cosine_row_le_one: "\<forall>e sims. cosine_row q e = Inr sims \<longrightarrow> (\<forall>x\<in>set sims. x \<le> (1::real))"
  using cosine_row_bounds by blast

lemma rag_aligned: "dict_wf kn \<Longrightarrow> aligned kn (embeddings (rag_load enc kn))"
  by (simp add: rag_load_def build_index_aligned)

lemma rag_spec:
  "dict_wf kn \<Longrightarrow> retrieve_answer enc (rag_load enc kn) q k =
     retrieve_spec (cosine_row (enc q)) kn (build_index enc kn) k"
  using retrieve_with_spec [OF rag_aligned cosine_row_length_ok]
  by (simp add: retrieve_answer_def rag_load_def)

lemma build_index_mem:
  "(l, e) \<in> set (build_index enc kn) \<Longrightarrow> \<exists>cs. (l, cs) \<in> set kn \<and> e = map enc cs"
  by (auto simp: build_index_def encode_eq_map)

lemma dict_wf_map_of: "dict_wf kn \<Longrightarrow> (l, cs) \<in> set kn \<Longrightarrow> map_of kn l = Some cs"
  by (simp add: dict_wf_def dict_keys_def)

text \<open>Every scanned label of the built index carries the rank of its own chunks.\<close>

lemma scan_build_index_mem:
  assumes "dict_wf kn" and "scan_labels (cosine_row q) k (build_index enc kn) = Inr cs"
    and "(l, m, ti) \<in> set cs"
  shows "\<exists>chunks. map_of kn l = Some chunks \<and>
           (m, ti) = label_rank (map (\<lambda>c. cos_sim q (enc c)) chunks) k"
proof -
  from scan_labels_mem [OF assms(2,3)] obtain e sims where
    e: "(l, e) \<in> set (build_index enc kn)" "cosine_row q e = Inr sims"
    "(m, ti) = label_rank sims k" by auto
  from build_index_mem [OF e(1)] obtain chunks where
    c: "(l, chunks) \<in> set kn" "e = map enc chunks" by blast
  have "sims = map (\<lambda>c. cos_sim q (enc c)) chunks" using e(2) c(2) by (simp add: cosine_row_Inr)
  then show ?thesis using e(3) c(1) dict_wf_map_of [OF assms(1)] by blast
qed

text \<open>What a winning result of the specification is made of.\<close>

lemma spec_winner:
  assumes "dict_wf kn"
    and "retrieve_spec (cosine_row q) kn (build_index enc kn) k = Inr (Some l, s, tc)"
  shows "\<exists>cs ti chunks. scan_labels (cosine_row q) k (build_index enc kn) = Inr cs \<and>
           best_spec cs = Some (l, s, ti) \<and> map_of kn l = Some chunks \<and>
           tc = map (\<lambda>i. chunks ! i) ti \<and>
           label_rank (map (\<lambda>c. cos_sim q (enc c)) chunks) k = (Some s, ti)"
proof -
  from assms(2) obtain cs where cs: "scan_labels (cosine_row q) k (build_index enc kn) = Inr cs"
    and r: "render kn (best_spec cs) = (Some l, s, tc)"
    by (auto simp: retrieve_spec_def split: sum.splits)
  from r obtain ti where b: "best_spec cs = Some (l, s, ti)"
    by (auto simp: render_def split: option.splits)
  from best_spec_Some [OF b] obtain pre post where "scored cs = pre @ (l, s, ti) # post"
    by blast
  then have "(l, Some s, ti) \<in> set cs" by (metis scored_mem in_set_conv_decomp)
  from scan_build_index_mem [OF assms(1) cs this] obtain chunks where
    ch: "map_of kn l = Some chunks"
    "(Some s, ti) = label_rank (map (\<lambda>c. cos_sim q (enc c)) chunks) k" by blast
  have "tc = map (\<lambda>i. chunks ! i) ti" using r b ch(1) by (simp add: render_def)
  then show ?thesis using cs b ch by auto
qed

section \<open>Properties of retrieve\_answer\<close>

text \<open>
  C1 (refinement). On a knowledge base loaded as a dict, \<open>retrieve_answer\<close>
  computes the abstract specification: score every label by the mean of its
  top-k cosine similarities, choose the first label whose score is the
  greatest positive one, and return its chunks at the selected indices.
\<close>

theorem retrieve_answer_refines:
  "dict_wf kn \<Longrightarrow> retrieve_answer enc (rag_load enc kn) q k =
     retrieve_spec (cosine_row (enc q)) kn (build_index enc kn) k"
  using retrieve_with_spec [OF rag_aligned cosine_row_length_ok]
  by (simp add: retrieve_answer_def rag_load_def)

theorem retrieve_answer_refines_witness:
  "dict_wf kb_a \<and> retrieve_answer enc_a (rag_load enc_a kb_a) ''Was dowry demanded?'' 1 =
     retrieve_spec (cosine_row (enc_a ''Was dowry demanded?'')) kb_a (build_index enc_a kb_a) 1"
proof -
  have wf: "dict_wf kb_a" by (simp add: kb_a_def dict_wf_def dict_keys_def)
  show ?thesis using wf retrieve_answer_refines [OF wf] by simp
qed

text \<open>
  C2 (functional, Scenario A and D). A label wins only with a positive score;
  every label before it in dict order scores strictly less and every label
  after it at most as much: the first label of greatest score wins a tie.
\<close>

theorem retrieve_answer_winner:
  assumes "dict_wf kn" and "retrieve_answer enc (rag_load enc kn) q k = Inr (Some l, s, tc)"
  shows "\<exists>cs pre ti post. scan_labels (cosine_row (enc q)) k (build_index enc kn) = Inr cs \<and>
           scored cs = pre @ (l, s, ti) # post \<and> 0 < s \<and>
           (\<forall>p\<in>set pre. cand_score p < s) \<and> (\<forall>p\<in>set post. cand_score p \<le> s)"
proof -
  have "retrieve_spec (cosine_row (enc q)) kn (build_index enc kn) k = Inr (Some l, s, tc)"
    using assms rag_spec by metis
  from spec_winner [OF assms(1) this] obtain cs ti where
    sc: "scan_labels (cosine_row (enc q)) k (build_index enc kn) = Inr cs"
    and b: "best_spec cs = Some (l, s, ti)"
    by blast
  from best_spec_Some [OF b] obtain pre post where
    "0 < s" "scored cs = pre @ (l, s, ti) # post"
    "\<forall>p\<in>set pre. cand_score p < s" "\<forall>p\<in>set post. cand_score p \<le> s"
    by blast
  with sc show ?thesis by blast
qed

theorem retrieve_answer_winner_witness:
  "retrieve_answer enc_a (rag_load enc_a kb_d) ''Was dowry demanded?'' 2 =
     Inr (Some ''first'', 3/5, [''He hit her repeatedly.'']) \<and>
   (\<exists>cs pre ti post. scan_labels (cosine_row (enc_a ''Was dowry demanded?'')) 2
        (build_index enc_a kb_d) = Inr cs \<and>
      scored cs = pre @ (''first'', 3/5, ti) # post \<and> 0 < (3/5::real) \<and>
      (\<forall>p\<in>set pre. cand_score p < 3/5) \<and> (\<forall>p\<in>set post. cand_score p \<le> 3/5))"
proof -
  have wf: "dict_wf kb_d" by (simp add: kb_d_def dict_wf_def dict_keys_def)
  have r: "retrieve_answer enc_a (rag_load enc_a kb_d) ''Was dowry demanded?'' 2 =
     Inr (Some ''first'', 3/5, [''He hit her repeatedly.''])"
    by (simp add: rag_eval_simps kb_d_def enc_a_def)
  show ?thesis using r retrieve_answer_winner [OF wf r] by simp
qed

text \<open>
  C3 (bounds). Whatever the index, a returned score lies in \<open>[0, 1]\<close>; no
  label means score \<open>0\<close> and no contexts, a label means a positive score.
\<close>

theorem retrieve_answer_score_range:
  assumes "retrieve_answer enc m q k = Inr (bl, bs, tc)"
  shows "0 \<le> bs \<and> bs \<le> 1 \<and> (bl = None \<longrightarrow> bs = 0 \<and> tc = []) \<and> (bl \<noteq> None \<longrightarrow> 0 < bs)"
proof -
  have "acc_ok 1 (bl, bs, tc)"
    using retrieve_with_acc_ok [OF cosine_row_le_one] assms by (simp add: retrieve_answer_def)
  then show ?thesis by (cases bl) (auto simp: acc_ok_def)
qed

theorem retrieve_answer_score_range_witness:
  "retrieve_answer enc_a (rag_load enc_a kb_a) ''Was dowry demanded?'' 1 =
     Inr (Some ''dowry_demand'', 4/5, [''He demanded gold from her family.'']) \<and>
   0 \<le> (4/5::real) \<and> (4/5::real) \<le> 1"
proof -
  have r: "retrieve_answer enc_a (rag_load enc_a kb_a) ''Was dowry demanded?'' 1 =
     Inr (Some ''dowry_demand'', 4/5, [''He demanded gold from her family.''])"
    by (simp add: rag_eval_simps kb_a_def enc_a_def)
  show ?thesis using r retrieve_answer_score_range [OF r] by simp
qed

text \<open>
  C4 (functional). The winning score is the mean of the winning label's top-k
  cosine similarities, and the contexts are that label's chunks at the top-k
  indices, in descending order of similarity.
\<close>

theorem retrieve_answer_contexts:
  assumes "dict_wf kn" and "retrieve_answer enc (rag_load enc kn) q k = Inr (Some l, s, tc)"
  shows "\<exists>chunks ti. map_of kn l = Some chunks \<and>
           label_rank (map (\<lambda>c. cos_sim (enc q) (enc c)) chunks) k = (Some s, ti) \<and>
           tc = map (\<lambda>i. chunks ! i) ti"
proof -
  have "retrieve_spec (cosine_row (enc q)) kn (build_index enc kn) k = Inr (Some l, s, tc)"
    using assms rag_spec by metis
  from spec_winner [OF assms(1) this] show ?thesis by blast
qed

theorem retrieve_answer_contexts_witness:
  "\<exists>chunks ti. map_of kb_a ''dowry_demand'' = Some chunks \<and>
     label_rank (map (\<lambda>c. cos_sim (enc_a ''Was dowry demanded?'') (enc_a c)) chunks) 1 =
       (Some (4/5), ti) \<and>
     [''He demanded gold from her family.''] = map (\<lambda>i. chunks ! i) ti"
proof -
  have wf: "dict_wf kb_a" by (simp add: kb_a_def dict_wf_def dict_keys_def)
  have r: "retrieve_answer enc_a (rag_load enc_a kb_a) ''Was dowry demanded?'' 1 =
     Inr (Some ''dowry_demand'', 4/5, [''He demanded gold from her family.''])"
    by (simp add: rag_eval_simps kb_a_def enc_a_def)
  show ?thesis using retrieve_answer_contexts [OF wf r] by simp
qed

text \<open>
  When every label has at least one chunk and the encoder has a fixed
  positive dimension, \<open>retrieve_answer\<close> never raises.
\<close>

lemma rag_total:
  assumes "dict_wf kn" and "list_all (\<lambda>(l, cs). cs \<noteq> []) kn"
    and "\<forall>t. length (enc t) = d" and "0 < d"
  shows "\<exists>r. retrieve_answer enc (rag_load enc kn) q k = Inr r"
proof -
  have "\<forall>(l, e)\<in>set (build_index enc kn). \<exists>sims. cosine_row (enc q) e = Inr sims"
  proof
    fix le assume "le \<in> set (build_index enc kn)"
    obtain l e where le0: "le = (l, e)" by fastforce
    with \<open>le \<in> set (build_index enc kn)\<close> have le: "le = (l, e)" "(l, e) \<in> set (build_index enc kn)"
      by simp_all
    from build_index_mem [OF le(2)] obtain cs where "(l, cs) \<in> set kn" "e = map enc cs" by blast
    with assms(2,3,4) have "cosine_row (enc q) e = Inr (map (cos_sim (enc q)) e)"
      by (auto simp: cosine_row_def list_all_iff)
    then show "case le of (l, e) \<Rightarrow> \<exists>sims. cosine_row (enc q) e = Inr sims" using le by simp
  qed
  from scan_labels_Inr [OF this] obtain cs where
    "scan_labels (cosine_row (enc q)) k (build_index enc kn) = Inr cs" by blast
  then have "retrieve_answer enc (rag_load enc kn) q k = Inr (render kn (best_spec cs))"
    using rag_spec [OF assms(1)] by (simp add: retrieve_spec_def)
  then show ?thesis by (rule exI)
qed

text \<open>
  C6 (error, Scenario E). A label with no chunks is accepted at load time but
  makes every query raise \<open>ValueError\<close> (the encoder returns a
  one-dimensional empty array, which \<open>cosine_similarity\<close> rejects); the spec
  asks for a \<open>LoadError\<close> at load time instead.
\<close>

theorem retrieve_answer_empty_label:
  assumes "dict_wf kn" and "(l, []) \<in> set kn"
  shows "retrieve_answer enc (rag_load enc kn) q k = Inl ValueError"
proof -
  have "(l, []) \<in> set (build_index enc kn)"
    using assms(2) by (force simp: build_index_def encode_eq_map)
  from scan_labels_Inl [where sf = "cosine_row (enc q)" and k = k, OF this cosine_row_empty]
  obtain err where
    err: "scan_labels (cosine_row (enc q)) k (build_index enc kn) = Inl err" by blast
  from scan_labels_Inl_src [OF err] have "err = ValueError"
    by (auto dest: cosine_row_Inl)
  with err show ?thesis using rag_spec [OF assms(1)] by (simp add: retrieve_spec_def)
qed

theorem retrieve_answer_empty_label_witness:
  "retrieve_answer enc_a (rag_load enc_a kb_e) ''Was dowry demanded?'' 2 = Inl ValueError"
proof -
  have wf: "dict_wf kb_e" by (simp add: kb_e_def dict_wf_def dict_keys_def)
  have "(''empty'', []) \<in> set kb_e" by (simp add: kb_e_def)
  from retrieve_answer_empty_label [OF wf this] show ?thesis .
qed

text \<open>
  C7 (functional). With \<open>top_k = 0\<close> every label's mean is taken over an
  empty selection (NaN), which never beats the running best: the result is
  always "no match", whatever the question.
\<close>

theorem retrieve_answer_top_zero:
  "retrieve_answer enc m q 0 = Inr r \<Longrightarrow> r = (None, 0, [])"
  unfolding retrieve_answer_def retrieve_with_def by (rule retrieve_loop_k0)

theorem retrieve_answer_top_zero_witness:
  "retrieve_answer enc_a (rag_load enc_a kb_a) ''Was dowry demanded?'' 0 = Inr (None, 0, [])"
proof -
  have "\<exists>r. retrieve_answer enc_a (rag_load enc_a kb_a) ''Was dowry demanded?'' 0 = Inr r"
    by (simp add: rag_eval_simps kb_a_def enc_a_def)
  then obtain r where r: "retrieve_answer enc_a (rag_load enc_a kb_a) ''Was dowry demanded?'' 0 = Inr r"
    by blast
  with retrieve_answer_top_zero [OF r] show ?thesis by simp
qed

text \<open>
  C8 (functional). "No match" is returned exactly when no label's top-k mean
  is positive, and then the score is \<open>0\<close> and there are no contexts.
\<close>

theorem retrieve_answer_no_match:
  assumes "dict_wf kn" and "scan_labels (cosine_row (enc q)) k (build_index enc kn) = Inr cs"
  shows "(retrieve_answer enc (rag_load enc kn) q k = Inr (None, 0, []) \<longleftrightarrow>
            (\<forall>p\<in>set (scored cs). cand_score p \<le> 0)) \<and>
         (\<forall>s tc. retrieve_answer enc (rag_load enc kn) q k = Inr (None, s, tc) \<longrightarrow> s = 0 \<and> tc = [])"
proof -
  have r: "retrieve_answer enc (rag_load enc kn) q k = Inr (render kn (best_spec cs))"
    using rag_spec [OF assms(1)] assms(2) by (simp add: retrieve_spec_def)
  show ?thesis
    using r best_spec_None [of cs] by (auto simp: render_def split: option.splits)
qed

theorem retrieve_answer_no_match_witness:
  "scan_labels (cosine_row (enc_a ''Is the sky blue?'')) 2 (build_index enc_a kb_a) =
     Inr [(''dowry_demand'', Some (-1), [0]), (''physical_abuse'', Some 0, [0])] \<and>
   retrieve_answer enc_a (rag_load enc_a kb_a) ''Is the sky blue?'' 2 = Inr (None, 0, [])"
proof -
  have wf: "dict_wf kb_a" by (simp add: kb_a_def dict_wf_def dict_keys_def)
  have cs: "scan_labels (cosine_row (enc_a ''Is the sky blue?'')) 2 (build_index enc_a kb_a) =
      Inr [(''dowry_demand'', Some (-1), [0]), (''physical_abuse'', Some 0, [0])]"
    by (simp add: rag_eval_simps kb_a_def enc_a_def)
  have sc: "\<forall>p\<in>set (scored [(''dowry_demand'', Some (-1), [0]), (''physical_abuse'', Some 0, [0])]).
      cand_score p \<le> (0::real)"
    by (simp add: cand_score_def)
  show ?thesis using cs sc retrieve_answer_no_match [OF wf cs] by blast
qed

text \<open>
  C9 (bounds, Scenario C). The winning label returns \<open>min(top_k, n)\<close> of its
  own \<open>n\<close> chunks for \<open>top_k \<ge> 0\<close>, all of them (no padding) when
  \<open>top_k > n\<close>; a negative \<open>top_k\<close> is a Python slice stop and leaves out the
  last \<open>|top_k|\<close> ranked chunks instead.
\<close>

theorem retrieve_answer_contexts_length:
  assumes "dict_wf kn" and "retrieve_answer enc (rag_load enc kn) q k = Inr (Some l, s, tc)"
    and "map_of kn l = Some chunks"
  shows "length tc = (if 0 \<le> k then min (nat k) (length chunks) else length chunks - nat (- k)) \<and>
         set tc \<subseteq> set chunks"
proof -
  have "retrieve_spec (cosine_row (enc q)) kn (build_index enc kn) k = Inr (Some l, s, tc)"
    using assms rag_spec by metis
  from spec_winner [OF assms(1) this] obtain ti where
    lr: "label_rank (map (\<lambda>c. cos_sim (enc q) (enc c)) chunks) k = (Some s, ti)"
    and tc: "tc = map (\<lambda>i. chunks ! i) ti"
    using assms(3) by auto
  let ?sims = "map (\<lambda>c. cos_sim (enc q) (enc c)) chunks"
  from lr have ti: "ti = top_indices ?sims k" by (simp add: label_rank_def Let_def)
  have "length tc = length (top_indices ?sims k)" using tc ti by simp
  moreover have "set tc \<subseteq> set chunks"
    using tc ti top_indices_bound [of _ ?sims k] by auto
  ultimately show ?thesis by (simp add: length_top_indices)
qed

theorem retrieve_answer_contexts_length_witness:
  "retrieve_answer enc_a (rag_load enc_a kb_c) ''Who hit her?'' 2 =
     Inr (Some ''physical_abuse'', 1, [''He hit her again.'', ''He hit her.'']) \<and>
   length [''He hit her again.'', ''He hit her.''] = 2"
proof -
  have wf: "dict_wf kb_c" by (simp add: kb_c_def dict_wf_def dict_keys_def)
  have r: "retrieve_answer enc_a (rag_load enc_a kb_c) ''Who hit her?'' 2 =
     Inr (Some ''physical_abuse'', 1, [''He hit her again.'', ''He hit her.''])"
    by (simp add: rag_eval_simps kb_c_def enc_a_def)
  have m: "map_of kb_c ''physical_abuse'' =
     Some [''He hit her.'', ''He demanded gold from her family.'', ''He hit her again.'']"
    by (simp add: kb_c_def)
  show ?thesis using r retrieve_answer_contexts_length [OF wf r m] by simp
qed

end
