(* ===== verification/App.thy ===== *)
theory App
  imports RagUtils
begin

text \<open>
  The Streamlit page src/app.py.  Streamlit runs the script from top to bottom
  on every interaction; the only state kept between runs is
  \<open>st.session_state\<close>, of which the script uses the key \<open>case_text\<close>
  (\<open>session\<close>).  One run (\<open>app_run\<close>) reads the widgets (\<open>run_input\<close>: the
  uploaded file, if any, the text input, whether the button was clicked),
  stores a newly uploaded file (\<open>upload_step\<close>, lines 22--26), and on a click
  handles the question (\<open>answer_step\<close>, lines 32--76): the two guards with
  their warnings, the call \<open>retrieve_answer(question)\<close> with the default
  \<open>top_k = 2\<close>, the prompt (\<open>build_prompt\<close>, the f-string of lines 44--62), the
  generator, and the displayed elements (\<open>ui\<close>).
  Python strings are lists of code points (\<open>ustr\<close>); ASCII literals are
  written \<open>u ''...''\<close> and other characters by their code points (the en
  dash of the template is 8211).  The decoder of the uploaded bytes
  (\<open>bytes.decode("utf-8", errors="ignore")\<close>) and the text-generation model
  are parameters \<open>dec\<close> and \<open>qa\<close>; page configuration, styling and title are
  static output and not modelled; the caption's number formatting is kept
  as the structured pair (label, score).
\<close>

type_synonym ustr = "nat list"

definition u :: "string \<Rightarrow> ustr" where
  "u s = map of_char s"

text \<open>\<open>str.isspace\<close> of one code point (Unicode White_Space, as Python defines it).\<close>

definition py_isspace :: "nat \<Rightarrow> bool" where
  "py_isspace c \<longleftrightarrow>
     (9 \<le> c \<and> c \<le> 13) \<or> (28 \<le> c \<and> c \<le> 32) \<or> c = 133 \<or> c = 160 \<or> c = 5760 \<or>
     (8192 \<le> c \<and> c \<le> 8202) \<or> c = 8232 \<or> c = 8233 \<or> c = 8239 \<or> c = 8287 \<or> c = 12288"

text \<open>\<open>s.strip()\<close>.\<close>

definition py_strip :: "ustr \<Rightarrow> ustr" where
  "py_strip s = rev (dropWhile py_isspace (rev (dropWhile py_isspace s)))"

text \<open>\<open>sep.join(xs)\<close>.\<close>

fun py_join :: "ustr \<Rightarrow> ustr list \<Rightarrow> ustr" where
  "py_join sep [] = []"
| "py_join sep [x] = x"
| "py_join sep (x # xs) = x @ sep @ py_join sep xs"

text \<open>The fixed text of the prompt around the three inserted values (lines 44--62).\<close>

definition prompt_intro :: ustr where
  "prompt_intro =
     [10] @ u ''You are a legal research assistant specializing in domestic violence case analysis.'' @
     [10, 10] @ u ''Use the CONTEXT section carefully to answer the QUESTION below.'' @
     [10] @ u ''If the context clearly supports the answer, rephrase and summarize it clearly in 2'' @
     [8211] @ u ''3 lines.'' @
     [10] @ u ''If not enough evidence exists, respond: '' @ [34] @
     u ''Insufficient evidence in context.'' @ [34] @
     [10, 10] @ u ''### CONTEXT (from prior annotated data)'' @ [10]"

definition prompt_snippet_header :: ustr where
  "prompt_snippet_header = [10, 10] @ u ''### NEW CASE SNIPPET'' @ [10]"

definition prompt_question_header :: ustr where
  "prompt_question_header = [10, 10] @ u ''### QUESTION'' @ [10]"

definition prompt_outro :: ustr where
  "prompt_outro =
     [10, 10] @ u ''Answer in a structured, factual, and lawyer-friendly manner.'' @
     [10] @ u ''Keep it concise (2'' @ [8211] @ u ''3 lines) and avoid raw repetition.'' @ [10]"

definition build_prompt :: "ustr \<Rightarrow> ustr \<Rightarrow> ustr \<Rightarrow> ustr" where
  "build_prompt context_sample case_snippet question =
     prompt_intro @ context_sample @ prompt_snippet_header @ case_snippet @
     prompt_question_header @ question @ prompt_outro"

text \<open>The messages of lines 26, 34 and 36 (the emoji by their code points).\<close>

definition msg_uploaded :: ustr where
  "msg_uploaded = [9989] @ u '' File uploaded successfully!''"

definition msg_no_case :: ustr where
  "msg_no_case = [9888, 65039] @ u '' Please upload a case file first.''"

definition msg_no_question :: ustr where
  "msg_no_question = [9888, 65039] @ u '' Please enter a question.''"

definition msg_answer_header :: ustr where
  "msg_answer_header = u ''### '' @ [129534] @ u '' Answer''"

text \<open>What a run shows, in order.\<close>

datatype 'l ui =
    Success ustr
  | Warning ustr
  | Markdown ustr
  | AnswerBox ustr
  | Caption "'l option" real
  | PrimaryContext ustr
  | SupportingContext ustr

record session =
  case_text :: "ustr option"

record 'b run_input =
  uploaded :: "'b option"
  question :: ustr
  clicked :: bool

definition init_session :: session where
  "init_session = \<lparr>case_text = None\<rparr>"

text \<open>Lines 22--26.\<close>

definition upload_step :: "('b \<Rightarrow> ustr) \<Rightarrow> 'b option \<Rightarrow> session \<Rightarrow> session \<times> 'l ui list" where
  "upload_step dec up s =
     (case up of
        None \<Rightarrow> (s, [])
      | Some f \<Rightarrow> (s\<lparr>case_text := Some (dec f)\<rparr>, [Success msg_uploaded]))"

text \<open>Lines 64--76: the displayed answer and the supporting contexts.\<close>

definition show_answer :: "ustr \<Rightarrow> 'l option \<Rightarrow> real \<Rightarrow> ustr list \<Rightarrow> 'l ui list" where
  "show_answer ans label score context =
     [Markdown msg_answer_header, AnswerBox ans, Caption label score] @
     (if length context > 0 then [PrimaryContext (take 600 (context ! 0) @ u ''...'')] else []) @
     (if length context > 1 then [SupportingContext (take 600 (context ! 1) @ u ''...'')] else [])"

text \<open>Lines 32--76: the button handler.  An exception of \<open>retrieve_answer\<close> propagates.\<close>

definition answer_step ::
  "(ustr \<Rightarrow> vector) \<Rightarrow> (ustr \<Rightarrow> ustr) \<Rightarrow> ('l, ustr) rag_module \<Rightarrow> session \<Rightarrow> ustr \<Rightarrow> bool \<Rightarrow>
   'l ui list result" where
  "answer_step enc qa m s q click =
     (if \<not> click then Inr []
      else case case_text s of
        None \<Rightarrow> Inr [Warning msg_no_case]
      | Some ct \<Rightarrow>
          if py_strip q = [] then Inr [Warning msg_no_question]
          else case retrieve_answer enc m q 2 of
            Inl e \<Rightarrow> Inl e
          | Inr (label, score, context) \<Rightarrow>
              (let context_sample = py_join (u '' '') (take 4 context);
                   case_snippet = take 1500 ct;
                   prompt = build_prompt context_sample case_snippet q;
                   ans = qa prompt
               in Inr (show_answer ans label score context)))"

text \<open>One run of the script: the new session and what it shows (or the exception).\<close>

definition app_run ::
  "('b \<Rightarrow> ustr) \<Rightarrow> (ustr \<Rightarrow> vector) \<Rightarrow> (ustr \<Rightarrow> ustr) \<Rightarrow> ('l, ustr) rag_module \<Rightarrow>
   session \<Rightarrow> 'b run_input \<Rightarrow> session \<times> 'l ui list result" where
  "app_run dec enc qa m s inp =
     (let (s1, shown) = upload_step dec (uploaded inp) s
      in (s1, case answer_step enc qa m s1 (question inp) (clicked inp) of
                Inl e \<Rightarrow> Inl e
              | Inr out \<Rightarrow> Inr (shown @ out)))"

text \<open>The sessions a browser tab can reach, run after run.\<close>

inductive reachable_session ::
  "('b \<Rightarrow> ustr) \<Rightarrow> (ustr \<Rightarrow> vector) \<Rightarrow> (ustr \<Rightarrow> ustr) \<Rightarrow> ('l, ustr) rag_module \<Rightarrow> session \<Rightarrow> bool"
  for dec enc qa m where
  start: "reachable_session dec enc qa m init_session"
| run: "reachable_session dec enc qa m s \<Longrightarrow>
        reachable_session dec enc qa m (fst (app_run dec enc qa m s inp))"

text \<open>
  Scenario data for the witnesses: a code-point knowledge base, an encoder
  with fixed unit vectors, and the identity as decoder of the uploaded bytes.
\<close>

definition enc_u :: "ustr \<Rightarrow> vector" where
  "enc_u t = (if t = u ''Was dowry demanded?'' then [3/5, 4/5]
              else if t = u ''Is the sky blue?'' then [0, -1]
              else if t = u ''He demanded gold.'' then [0, 1] else [1, 0])"

definition kb_u :: "(string, ustr) knowledge" where
  "kb_u = [(''dowry_demand'', [u ''He demanded gold.'']), (''physical_abuse'', [u ''He hit her.''])]"

definition ask_dowry :: "ustr run_input" where
  "ask_dowry = \<lparr>uploaded = None, question = u ''Was dowry demanded?'', clicked = True\<rparr>"

definition upload_case :: "ustr run_input" where
  "upload_case = \<lparr>uploaded = Some (u ''case''), question = [], clicked = False\<rparr>"

section \<open>Lemmas\<close>

lemmas app_eval_simps = app_run_def upload_step_def answer_step_def rag_eval_simps
  kb_u_def enc_u_def py_strip_def py_isspace_def u_def

lemma all_dropWhile_iff: "(\<forall>x\<in>set (dropWhile P xs). P x) \<longleftrightarrow> (\<forall>x\<in>set xs. P x)"
  by (induction xs) auto

lemma py_strip_Nil_iff: "py_strip s = [] \<longleftrightarrow> (\<forall>c\<in>set s. py_isspace c)"
  by (simp add: py_strip_def dropWhile_eq_Nil_conv all_dropWhile_iff)

lemma upload_step_shown: "x \<in> set (snd (upload_step dec up s)) \<Longrightarrow> x = Success msg_uploaded"
  by (auto simp: upload_step_def split: option.splits)

lemma app_run_case_text:
  "case_text (fst (app_run dec enc qa m s inp)) =
     (case uploaded inp of None \<Rightarrow> case_text s | Some f \<Rightarrow> Some (dec f))"
  by (simp add: app_run_def case_prod_beta upload_step_def split: option.splits)

lemma app_run_shown:
  "snd (app_run dec enc qa m s inp) = Inr out \<Longrightarrow>
   \<exists>out'. answer_step enc qa m (fst (app_run dec enc qa m s inp)) (question inp) (clicked inp) = Inr out' \<and>
          out = snd (upload_step dec (uploaded inp) s) @ out'"
  by (auto simp: app_run_def split: prod.splits sum.splits)

lemma show_answer_AnswerBox: "AnswerBox a \<in> set (show_answer ans l sc ctx) \<Longrightarrow> a = ans"
  by (auto simp: show_answer_def split: if_splits)

lemma answer_step_AnswerBox:
  assumes "answer_step enc qa m s q c = Inr out" and "AnswerBox a \<in> set out"
  shows "c \<and> py_strip q \<noteq> [] \<and>
         (\<exists>ct l sc ctx. case_text s = Some ct \<and> retrieve_answer enc m q 2 = Inr (l, sc, ctx) \<and>
            a = qa (build_prompt (py_join (u '' '') (take 4 ctx)) (take 1500 ct) q))"
  using assms
  by (auto simp: answer_step_def Let_def dest: show_answer_AnswerBox
      split: if_splits option.splits sum.splits prod.splits)

lemma app_run_AnswerBox:
  assumes "snd (app_run dec enc qa m s inp) = Inr out" and "AnswerBox a \<in> set out"
  shows "clicked inp \<and> py_strip (question inp) \<noteq> [] \<and>
         (\<exists>ct l sc ctx. case_text (fst (app_run dec enc qa m s inp)) = Some ct \<and>
            retrieve_answer enc m (question inp) 2 = Inr (l, sc, ctx) \<and>
            a = qa (build_prompt (py_join (u '' '') (take 4 ctx)) (take 1500 ct) (question inp)))"
proof -
  from app_run_shown [OF assms(1)] obtain out' where
    a: "answer_step enc qa m (fst (app_run dec enc qa m s inp)) (question inp) (clicked inp) = Inr out'"
    and o: "out = snd (upload_step dec (uploaded inp) s) @ out'" by blast
  from assms(2) o have "AnswerBox a \<in> set out'" by (auto dest: upload_step_shown)
  from answer_step_AnswerBox [OF a this] show ?thesis .
qed

section \<open>Properties\<close>

text \<open>
  C18 (safety). An answer is shown only after a click, for a question that is
  not blank, and with a case file in the session: the guards of lines 33--36
  come before retrieval and generation.
\<close>

theorem app_answer_guarded:
  assumes "snd (app_run dec enc qa m s inp) = Inr out" and "AnswerBox a \<in> set out"
  shows "clicked inp \<and> py_strip (question inp) \<noteq> [] \<and> case_text (fst (app_run dec enc qa m s inp)) \<noteq> None"
  using app_run_AnswerBox [OF assms] by auto

text \<open>
  C19 (error). A blank question (empty after \<open>strip()\<close>) never reaches the
  retriever or the generator: what the handler does does not depend on them.
  This is where the spec's InvalidQueryError is enforced; \<open>retrieve_answer\<close>
  itself accepts any question.
\<close>

theorem blank_question_not_retrieved:
  "py_strip q = [] \<Longrightarrow> answer_step enc qa m s q c = answer_step enc' qa' m' s q c"
  by (simp add: answer_step_def split: option.splits)

text \<open>
  C20 (functional). A shown answer is the generator's output on the prompt
  built from the retrieved contexts joined by spaces, the first 1500 code
  points of the case file and the question; there are at most two contexts
  (the default \<open>top_k = 2\<close>), so the slice \<open>context[:4]\<close> never takes more.
\<close>

theorem app_prompt:
  assumes "snd (app_run dec enc qa m s inp) = Inr out" and "AnswerBox a \<in> set out"
  shows "\<exists>ct l sc ctx. case_text (fst (app_run dec enc qa m s inp)) = Some ct \<and>
           retrieve_answer enc m (question inp) 2 = Inr (l, sc, ctx) \<and> length ctx \<le> 2 \<and>
           a = qa (build_prompt (py_join (u '' '') ctx) (take 1500 ct) (question inp))"
proof -
  from app_run_AnswerBox [OF assms] obtain ct l sc ctx where
    r: "case_text (fst (app_run dec enc qa m s inp)) = Some ct"
       "retrieve_answer enc m (question inp) 2 = Inr (l, sc, ctx)"
       "a = qa (build_prompt (py_join (u '' '') (take 4 ctx)) (take 1500 ct) (question inp))"
    by blast
  have "length ctx \<le> 2"
    using retrieve_with_contexts_le [of 2] r(2) by (force simp: retrieve_answer_def)
  with r show ?thesis by auto
qed

text \<open>
  C21 (invariant). In every session a tab can reach, the stored case text is
  absent or the decoding of some uploaded file.
\<close>

theorem reachable_session_case_text:
  "reachable_session dec enc qa m s \<Longrightarrow> case_text s = None \<or> (\<exists>f. case_text s = Some (dec f))"
proof (induction rule: reachable_session.induct)
  case start
  then show ?case by (simp add: init_session_def)
next
  case (run s inp)
  then show ?case
    by (auto simp: app_run_case_text split: option.splits)
qed

text \<open>C22 (invariant). Once a case file is stored, no later run removes it.\<close>

theorem app_run_keeps_case:
  "case_text s \<noteq> None \<Longrightarrow> case_text (fst (app_run dec enc qa m s inp)) \<noteq> None"
  by (auto simp: app_run_case_text split: option.splits)

text \<open>
  C23 (functional). When retrieval finds no label, the page still calls the
  generator, with an empty context section, and captions the label \<open>None\<close>
  with score \<open>0\<close>: the "insufficient evidence" outcome is left to the model.
\<close>

theorem app_no_match:
  assumes "case_text s = Some ct" and "py_strip q \<noteq> []"
    and "retrieve_answer enc m q 2 = Inr (None, sc, ctx)"
  shows "answer_step enc qa m s q True = Inr (show_answer (qa (build_prompt [] (take 1500 ct) q)) None 0 [])"
proof -
  have r: "retrieve_with (cosine_row (enc q)) (knowledge m) (embeddings m) 2 = Inr (None, sc, ctx)"
    using assms(3) by (simp add: retrieve_answer_def)
  from retrieve_with_acc_ok [OF cosine_row_le_one r] have "sc = 0" "ctx = []"
    by (simp_all add: acc_ok_def)
  with assms show ?thesis by (simp add: answer_step_def)
qed

theorem app_answer_guarded_witness:
  "snd (app_run (\<lambda>b. b) enc_u (\<lambda>p. p) (rag_load enc_u kb_u) \<lparr>case_text = Some (u ''case'')\<rparr> ask_dowry) =
     Inr (show_answer (build_prompt (u ''He demanded gold.'') (u ''case'') (u ''Was dowry demanded?''))
            (Some ''dowry_demand'') (4/5) [u ''He demanded gold.'']) \<and>
   clicked ask_dowry \<and> py_strip (question ask_dowry) \<noteq> []"
proof -
  let ?p = "build_prompt (u ''He demanded gold.'') (u ''case'') (u ''Was dowry demanded?'')"
  have r: "snd (app_run (\<lambda>b. b) enc_u (\<lambda>p. p) (rag_load enc_u kb_u) \<lparr>case_text = Some (u ''case'')\<rparr> ask_dowry) =
     Inr (show_answer ?p (Some ''dowry_demand'') (4/5) [u ''He demanded gold.''])"
    by (simp add: app_eval_simps ask_dowry_def)
  have b: "AnswerBox ?p \<in> set (show_answer ?p (Some ''dowry_demand'') (4/5) [u ''He demanded gold.''])"
    by (simp add: show_answer_def)
  show ?thesis using r app_answer_guarded [OF r b] by simp
qed

theorem blank_question_not_retrieved_witness:
  "py_strip [32, 9] = [] \<and>
   answer_step enc_u (\<lambda>p. p) (rag_load enc_u kb_u) \<lparr>case_text = Some []\<rparr> [32, 9] True =
   answer_step (\<lambda>_. []) (\<lambda>_. []) (rag_load (\<lambda>_. []) []) \<lparr>case_text = Some []\<rparr> [32, 9] True"
proof -
  have b: "py_strip [32, 9] = []" by (simp add: py_strip_def py_isspace_def)
  show ?thesis using b blank_question_not_retrieved [OF b] by simp
qed

theorem app_prompt_witness:
  "\<exists>ct l sc ctx. case_text (fst (app_run (\<lambda>b. b) enc_u (\<lambda>p. p) (rag_load enc_u kb_u)
        \<lparr>case_text = Some (u ''case'')\<rparr> ask_dowry)) = Some ct \<and>
      retrieve_answer enc_u (rag_load enc_u kb_u) (question ask_dowry) 2 = Inr (l, sc, ctx) \<and>
      length ctx \<le> 2 \<and>
      build_prompt (u ''He demanded gold.'') (u ''case'') (u ''Was dowry demanded?'') =
        build_prompt (py_join (u '' '') ctx) (take 1500 ct) (question ask_dowry)"
proof -
  let ?p = "build_prompt (u ''He demanded gold.'') (u ''case'') (u ''Was dowry demanded?'')"
  have r: "snd (app_run (\<lambda>b. b) enc_u (\<lambda>p. p) (rag_load enc_u kb_u) \<lparr>case_text = Some (u ''case'')\<rparr> ask_dowry) =
     Inr (show_answer ?p (Some ''dowry_demand'') (4/5) [u ''He demanded gold.''])"
    by (simp add: app_eval_simps ask_dowry_def)
  have b: "AnswerBox ?p \<in> set (show_answer ?p (Some ''dowry_demand'') (4/5) [u ''He demanded gold.''])"
    by (simp add: show_answer_def)
  from app_prompt [OF r b] show ?thesis by simp
qed

theorem reachable_session_case_text_witness:
  "reachable_session (\<lambda>b. b) enc_u (\<lambda>p. p) (rag_load enc_u kb_u)
     (fst (app_run (\<lambda>b. b) enc_u (\<lambda>p. p) (rag_load enc_u kb_u) init_session upload_case)) \<and>
   (\<exists>f. case_text (fst (app_run (\<lambda>b. b) enc_u (\<lambda>p. p) (rag_load enc_u kb_u) init_session upload_case)) =
        Some f)"
proof -
  let ?s = "fst (app_run (\<lambda>b. b) enc_u (\<lambda>p. p) (rag_load enc_u kb_u) init_session upload_case)"
  have r: "reachable_session (\<lambda>b. b) enc_u (\<lambda>p. p) (rag_load enc_u kb_u) ?s"
    by (rule reachable_session.run [OF reachable_session.start])
  have "case_text ?s = Some (u ''case'')"
    by (simp add: app_run_case_text upload_case_def)
  with reachable_session_case_text [OF r] r show ?thesis by auto
qed

theorem app_run_keeps_case_witness:
  "case_text \<lparr>case_text = Some (u ''case'')\<rparr> \<noteq> None \<and>
   case_text (fst (app_run (\<lambda>b. b) enc_u (\<lambda>p. p) (rag_load enc_u kb_u) \<lparr>case_text = Some (u ''case'')\<rparr>
     ask_dowry)) \<noteq> None"
proof -
  have c: "case_text \<lparr>case_text = Some (u ''case'')\<rparr> \<noteq> None" by simp
  show ?thesis using c app_run_keeps_case [OF c] by blast
qed

theorem app_no_match_witness:
  "answer_step enc_u (\<lambda>p. p) (rag_load enc_u kb_u) \<lparr>case_text = Some (u ''case'')\<rparr> (u ''Is the sky blue?'') True =
     Inr (show_answer (build_prompt [] (take 1500 (u ''case'')) (u ''Is the sky blue?'')) None 0 [])"
proof -
  have c: "case_text \<lparr>case_text = Some (u ''case'')\<rparr> = Some (u ''case'')" by simp
  have q: "py_strip (u ''Is the sky blue?'') \<noteq> []" by (simp add: py_strip_def py_isspace_def u_def)
  have r: "retrieve_answer enc_u (rag_load enc_u kb_u) (u ''Is the sky blue?'') 2 = Inr (None, 0, [])"
    by (simp add: rag_eval_simps kb_u_def enc_u_def u_def)
  from app_no_match [OF c q r] show ?thesis .
qed

end
