(* ===== verification/KnowledgeETL.thy ===== *)
theory KnowledgeETL
  imports EmbeddingStore
begin

text \<open>
  The offline conversion src/convert_to_json.py (lines 4--19): read the
  annotation sheet, group the \<open>text\<close> of every row under its \<open>label\<close> in a dict
  that keeps the labels in order of first appearance and the texts of a label
  in row order, and write the dict as JSON.  A cell of the sheet is a string
  or missing (pandas reads an empty cell as NaN); \<open>str(row['text'])\<close> turns a
  missing cell into the text \<open>nan\<close>.  Labels are strings.  The spreadsheet
  reader and \<open>json.dump\<close>/\<open>json.load\<close> are library code: a row list is the
  input and the dict itself is what \<open>rag_utils\<close> loads (a JSON object with
  string keys and string-list values reads back as the same dict).
  \<open>QuestionMapping.xlsx\<close> is read (line 6) but never used.
\<close>

datatype cell = Text string | Missing

text \<open>\<open>str(...)\<close> of a cell.\<close>

fun py_str :: "cell \<Rightarrow> string" where
  "py_str (Text s) = s"
| "py_str Missing = ''nan''"

type_synonym sheet_row = "string \<times> cell"

text \<open>One iteration of the loop (lines 10--15).\<close>

definition add_row :: "(string, string) knowledge \<Rightarrow> sheet_row \<Rightarrow> (string, string) knowledge" where
  "add_row kn r =
     (let label = fst r; text = py_str (snd r);
          kn1 = (if label \<notin> set (dict_keys kn) then dict_set kn label [] else kn)
      in case map_of kn1 label of
           None \<Rightarrow> kn1
         | Some ts \<Rightarrow> dict_set kn1 label (ts @ [text]))"

text \<open>Lines 9--15: the loop over \<open>annotations.iterrows()\<close>.\<close>

fun group_rows :: "(string, string) knowledge \<Rightarrow> sheet_row list \<Rightarrow> (string, string) knowledge" where
  "group_rows kn [] = kn"
| "group_rows kn (r # rs) = group_rows (add_row kn r) rs"

definition convert_knowledge :: "sheet_row list \<Rightarrow> (string, string) knowledge" where
  "convert_knowledge rows = group_rows [] rows"

text \<open>The texts of the rows of one label, in row order.\<close>

definition label_texts :: "sheet_row list \<Rightarrow> string \<Rightarrow> string list" where
  "label_texts rows l = map (\<lambda>r. py_str (snd r)) (filter (\<lambda>r. fst r = l) rows)"

text \<open>The distinct elements of a list in order of first appearance.\<close>

definition first_occurrences :: "'a list \<Rightarrow> 'a list" where
  "first_occurrences xs = rev (remdups (rev xs))"

section \<open>Lemmas\<close>

lemma map_of_add_row:
  "map_of (add_row kn r) =
     (map_of kn)(fst r \<mapsto> (case map_of kn (fst r) of None \<Rightarrow> [] | Some ts \<Rightarrow> ts) @ [py_str (snd r)])"
  by (auto simp: add_row_def Let_def map_of_dict_set dict_keys_def fun_eq_iff
      split: option.splits dest: weak_map_of_SomeI)
    (metis map_of_eq_None_iff option.distinct(1))+

lemma dict_keys_add_row:
  "dict_keys (add_row kn r) =
     (if fst r \<in> set (dict_keys kn) then dict_keys kn else dict_keys kn @ [fst r])"
  by (auto simp: add_row_def Let_def dict_keys_dict_set map_of_dict_set
      split: option.splits)

lemma map_of_group_rows:
  "map_of (group_rows kn rows) l =
     (if l \<in> fst ` set rows
      then Some ((case map_of kn l of None \<Rightarrow> [] | Some ts \<Rightarrow> ts) @ label_texts rows l)
      else map_of kn l)"
proof (induction rows arbitrary: kn)
  case Nil
  then show ?case by simp
next
  case (Cons r rs)
  then show ?case
    by (cases "map_of kn l") (auto simp: map_of_add_row label_texts_def filter_empty_conv image_iff)
qed

lemma first_occurrences_append:
  "first_occurrences (first_occurrences xs @ ys) = first_occurrences (xs @ ys)"
  by (simp add: first_occurrences_def remdups_append2)

lemma first_occurrences_distinct: "distinct xs \<Longrightarrow> first_occurrences xs = xs"
  by (simp add: first_occurrences_def distinct_remdups_id)

lemma distinct_first_occurrences: "distinct (first_occurrences xs)"
  by (simp add: first_occurrences_def)

lemma dict_keys_group_rows:
  "dict_wf kn \<Longrightarrow> dict_keys (group_rows kn rows) = first_occurrences (dict_keys kn @ map fst rows)"
proof (induction rows arbitrary: kn)
  case Nil
  then show ?case by (simp add: dict_wf_def first_occurrences_distinct)
next
  case (Cons r rs)
  have wf: "dict_wf (add_row kn r)"
    using Cons.prems by (simp add: dict_wf_def dict_keys_add_row)
  have "dict_keys (add_row kn r) = first_occurrences (dict_keys kn @ [fst r])"
    using Cons.prems by (auto simp: dict_keys_add_row first_occurrences_def dict_wf_def
        distinct_remdups_id)
  then have "dict_keys (group_rows kn (r # rs)) =
      first_occurrences (first_occurrences (dict_keys kn @ [fst r]) @ map fst rs)"
    using Cons.IH [OF wf] by simp
  then show ?case by (simp add: first_occurrences_append)
qed

lemma mset_dict_set:
  "dict_wf d \<Longrightarrow>
   mset (concat (map snd (dict_set d k v))) + (case map_of d k of None \<Rightarrow> {#} | Some w \<Rightarrow> mset w) =
   mset (concat (map snd d)) + mset v"
proof (induction d)
  case Nil
  then show ?case by simp
next
  case (Cons p d)
  obtain k' v' where p: "p = (k', v')" by fastforce
  have wf: "dict_wf d" using Cons.prems by (simp add: dict_wf_def dict_keys_def)
  show ?case
  proof (cases "k' = k")
    case True
    then show ?thesis using p by (simp add: ac_simps)
  next
    case False
    then show ?thesis using p Cons.IH [OF wf] by (simp add: ac_simps)
  qed
qed

lemma dict_wf_add_row: "dict_wf kn \<Longrightarrow> dict_wf (add_row kn r)"
  by (simp add: dict_wf_def dict_keys_add_row)

lemma mset_add_row:
  assumes "dict_wf kn"
  shows "mset (concat (map snd (add_row kn r))) = mset (concat (map snd kn)) + {#py_str (snd r)#}"
proof -
  let ?l = "fst r" and ?t = "py_str (snd r)"
  let ?kn1 = "if ?l \<notin> set (dict_keys kn) then dict_set kn ?l [] else kn"
  have wf1: "dict_wf ?kn1" using assms by (simp add: dict_wf_dict_set)
  have m1: "mset (concat (map snd ?kn1)) = mset (concat (map snd kn))"
  proof (cases "?l \<in> set (dict_keys kn)")
    case True
    then show ?thesis by simp
  next
    case False
    then have "map_of kn ?l = None" by (simp add: dict_keys_def map_of_eq_None_iff)
    then show ?thesis using False mset_dict_set [OF assms, of ?l "[]"] by simp
  qed
  obtain ts where ts: "map_of ?kn1 ?l = Some ts"
    by (cases "?l \<in> set (dict_keys kn)") (auto simp: map_of_dict_set dict_keys_def
        dest: weak_map_of_SomeI intro: that dest!: map_of_eq_None_iff [THEN iffD2])
  have "add_row kn r = dict_set ?kn1 ?l (ts @ [?t])"
    using ts by (simp add: add_row_def Let_def)
  moreover have "mset (concat (map snd (dict_set ?kn1 ?l (ts @ [?t])))) + mset ts =
      mset (concat (map snd ?kn1)) + mset (ts @ [?t])"
    using mset_dict_set [OF wf1, of ?l "ts @ [?t]"] ts by simp
  ultimately show ?thesis using m1 by simp
qed

lemma mset_group_rows:
  "dict_wf kn \<Longrightarrow>
   mset (concat (map snd (group_rows kn rows))) =
   mset (concat (map snd kn)) + mset (map (\<lambda>r. py_str (snd r)) rows)"
  by (induction rows arbitrary: kn) (simp_all add: mset_add_row dict_wf_add_row ac_simps)

lemma convert_knowledge_dict_keys:
  "dict_keys (convert_knowledge rows) = first_occurrences (map fst rows)"
  using dict_keys_group_rows [of "[]" rows]
  by (simp add: convert_knowledge_def dict_wf_def dict_keys_def)

lemma convert_knowledge_wf: "dict_wf (convert_knowledge rows)"
  by (simp add: dict_wf_def convert_knowledge_dict_keys distinct_first_occurrences)

lemma convert_knowledge_map_of:
  "map_of (convert_knowledge rows) l = (if l \<in> fst ` set rows then Some (label_texts rows l) else None)"
  by (simp add: convert_knowledge_def map_of_group_rows)

lemma convert_knowledge_nonempty: "list_all (\<lambda>(l, cs). cs \<noteq> []) (convert_knowledge rows)"
proof -
  have "cs \<noteq> []" if "(l, cs) \<in> set (convert_knowledge rows)" for l cs
  proof -
    have "map_of (convert_knowledge rows) l = Some cs"
      using that convert_knowledge_wf by (simp add: dict_wf_def dict_keys_def)
    then have "l \<in> fst ` set rows" and "cs = label_texts rows l"
      by (auto simp: convert_knowledge_map_of split: if_splits)
    then show ?thesis by (auto simp: label_texts_def filter_empty_conv)
  qed
  then show ?thesis by (auto simp: list_all_iff)
qed

section \<open>Properties\<close>

text \<open>
  C15 (functional). After the conversion, a label maps to the texts of its
  rows in row order (a missing cell as \<open>nan\<close>); a label without rows is absent.
\<close>

theorem convert_knowledge_lookup:
  "map_of (convert_knowledge rows) l =
     (if l \<in> fst ` set rows then Some (map (\<lambda>r. py_str (snd r)) (filter (\<lambda>r. fst r = l) rows)) else None)"
  by (simp add: convert_knowledge_map_of label_texts_def)

text \<open>
  C16 (invariant). The converted dict has each label once, in order of the
  label's first row.
\<close>

theorem convert_knowledge_keys:
  "dict_wf (convert_knowledge rows) \<and> dict_keys (convert_knowledge rows) = first_occurrences (map fst rows)"
  by (simp add: convert_knowledge_wf convert_knowledge_dict_keys)

text \<open>
  C17 (roundtrip). No text is lost or duplicated: the chunks of all labels
  together are a permutation of the rows' texts.
\<close>

theorem convert_knowledge_perm:
  "mset (concat (map snd (convert_knowledge rows))) = mset (map (\<lambda>r. py_str (snd r)) rows)"
  using mset_group_rows [of "[]" rows] by (simp add: convert_knowledge_def dict_wf_def dict_keys_def)

end
