(* ===== verification/Spec2Isabelle.thy ===== *)
theory Spec2Isabelle
  imports App KnowledgeETL
begin

text \<open>
  \<^bold>\<open>LegalBot: a verified model of the retrieval pipeline and its page.\<close>

  The repository is a small retrieval-augmented question answering app for
  domestic-violence case law.  Three Python files:
  \<^item> src/convert_to_json.py, an offline script, groups the rows of an annotated
    spreadsheet by label into \<open>legal_knowledge.json\<close> (label \<open>\<rightarrow>\<close> list of texts);
  \<^item> src/rag_utils.py, imported once per process, loads that dict, embeds every
    chunk with a SentenceTransformer model (the embedding store) and offers
    \<open>retrieve_answer(question, top_k=2)\<close> (the retriever): it embeds the
    question, takes the cosine similarity with each label's chunk vectors,
    selects each label's top-k chunks (\<open>np.argsort\<close>, reversed, sliced),
    averages their similarities, keeps the label with the strictly greatest
    average above \<open>0\<close>, and returns that label, its score and its top chunks;
  \<^item> src/app.py, a Streamlit page, guards the question, calls
    \<open>retrieve_answer\<close>, builds a prompt from the contexts and an uploaded case
    file, and shows the answer of a text-generation model.

  \<^bold>\<open>Theories.\<close>
  \<^item> Prelude: Python semantics the code relies on: \<open>dict\<close> as an
    insertion-ordered association list (\<open>dict_get\<close> raising \<open>KeyError\<close>,
    \<open>dict_set\<close>), list indexing and comprehension raising \<open>IndexError\<close>
    (\<open>py_get\<close>, \<open>py_gets\<close>), the slice \<open>[:k]\<close> with negative \<open>k\<close> (\<open>py_take\<close>), and
    \<open>np.mean\<close> with NaN for an empty array (\<open>np_mean\<close>, \<open>None\<close> for NaN).
    Errors are the values \<open>Inl KeyError\<close>, \<open>Inl IndexError\<close>, \<open>Inl ValueError\<close>.
  \<^item> Ranking (rag_utils.py line 28): \<open>argsort\<close> is numpy's argsort, modelled
    as one admissible tie order (the stable sort of indices), \<open>top_indices\<close> the
    reversed, sliced index list.  Proved: the selection is a top-k (C11), it
    is ranked (C12), and the selected values do not depend on how an argsort
    orders ties (C13, against the contract \<open>is_argsort\<close>).
  \<^item> Similarity (line 26): scikit-learn's \<open>cosine_similarity\<close>: rows normalised
    to unit length (a zero row left as it is), then dot products; the input
    checks raise \<open>ValueError\<close>.  Proved: Cauchy--Schwarz on lists and the range
    \<open>[-1, 1]\<close> (C10).
  \<^item> EmbeddingStore (lines 7--14): \<open>encode\<close>, the batch call \<open>model.encode\<close> as
    sentence-transformers performs it (sort the texts longest first, encode,
    restore input order through the argsort of the sort permutation), the
    index \<open>build_index enc kn\<close> and the alignment invariant \<open>aligned\<close>; the
    model itself is the parameter \<open>enc\<close>.  Proved: the restoration is exact
    (\<open>encode_eq_map\<close>, via \<open>argsort_perm_inverse\<close>), so position \<open>i\<close> of a label's
    vectors encodes chunk \<open>i\<close> (C14).
  \<^item> Retriever (lines 16--37): \<open>retrieve_loop\<close>, the loop with its running best,
    over any similarity function; the abstract specification
    \<open>retrieve_spec\<close> (scan all labels, choose the first with the greatest
    positive score, \<open>best_spec\<close>); the refinement \<open>retrieve_with_spec\<close> under
    \<open>aligned\<close>; the loop invariant \<open>acc_ok\<close>.
  \<^item> RagUtils: the module state \<open>rag_module\<close>, \<open>rag_load\<close>, \<open>retrieve_answer\<close>
    with the cosine row.  Proved: refinement to the specification (C1), the
    winner is the first label of greatest positive score (C2), the score range
    (C3), score and contexts of the winner (C4), \<open>ValueError\<close> for a label
    without chunks (C6), \<open>top_k = 0\<close> never matches (C7), no match exactly
    when no label scores above \<open>0\<close> (C8), number of contexts (C9).
  \<^item> KnowledgeETL (convert_to_json.py lines 4--19): \<open>group_rows\<close> and
    \<open>convert_knowledge\<close>.  Proved: lookup of a label (C15), keys distinct in
    first-appearance order (C16), the chunks are a permutation of the rows'
    texts (C17).
  \<^item> App (app.py lines 21--77): one Streamlit script run \<open>app_run\<close> as a
    function of the session state (record \<open>session\<close>, the key \<open>case_text\<close>) and the
    widget values (record \<open>run_input\<close>), returning the new session and the
    displayed elements (datatype \<open>ui\<close>) or a Python error; \<open>upload_step\<close> (lines
    22--26), \<open>answer_step\<close> with its two guards (lines 32--76), \<open>build_prompt\<close>
    (the f-string of lines 44--62, over Unicode code points \<open>ustr\<close>) and
    \<open>show_answer\<close> (lines 64--76); reruns of the script on one browser tab are
    the inductive relation \<open>reachable_session\<close>.  The generator and the UTF-8
    decoder are parameters \<open>qa\<close> and \<open>dec\<close>.  Proved: an answer needs a click, a
    non-blank question and a case file (C18); a blank question never reaches
    retriever or generator (C19); the prompt is built from at most two
    contexts, the first 1500 code points of the case and the question (C20);
    the session's case text is always a decoded upload or absent (C21) and
    is never removed (C22); with no matching label the generator is still
    called, with an empty context section (C23).
  \<^item> This theory: properties across components (C5: the whole pipeline from
    spreadsheet rows to an answer never raises).

  \<^bold>\<open>Modelling choices.\<close>  Floats are reals: rounding of float32 similarities
  and means is not modelled, so the bounds hold of exact arithmetic.  The
  SentenceTransformer model is an arbitrary function \<open>enc\<close> from a text to a
  vector, applied text by text; the witnesses use a fixed table of unit
  vectors.  numpy's default argsort does not promise an order for equal
  values; it is modelled by the stable sort, and C13 shows the scores do not
  depend on this choice (which of several exactly tied chunks are shown
  does).  \<open>model.encode([question])\<close> on one text is \<open>enc question\<close>, which
  \<open>encode_eq_map\<close> justifies.  JSON writing and reading are the identity on a dict
  with string keys and string-list values.  No loop needs fuel: every loop
  runs over a finite list and is structural recursion.

  \<^bold>\<open>Not modelled.\<close>  The transformer models (embedding and text generation)
  are external collaborators; spreadsheet and file I/O, the page styling
  (app.py lines 5--19) and the Streamlit rendering of an element are library
  code.  The UTF-8 decoder with \<open>errors="ignore"\<close> (line 24) is a parameter;
  a model of it, and of the JSON writer and reader as a round trip, are the
  next steps of this development.
\<close>

section \<open>Properties across components\<close>

text \<open>
  C5 (error). A knowledge base produced by the conversion script, loaded by
  rag_utils with an encoder of fixed positive dimension, answers every query
  without raising: the conversion never creates a label without chunks and
  always yields a dict.
\<close>

theorem pipeline_total:
  assumes "\<forall>t. length (enc t) = d" and "0 < d"
  shows "\<exists>r. retrieve_answer enc (rag_load enc (convert_knowledge rows)) q k = Inr r"
  using rag_total [OF convert_knowledge_wf convert_knowledge_nonempty assms] .

theorem pipeline_total_witness:
  "\<exists>r. retrieve_answer enc_a
     (rag_load enc_a (convert_knowledge [(''dowry_demand'', Text ''He demanded gold from her family.''),
                                         (''physical_abuse'', Missing)])) ''Who hit her?'' 2 = Inr r"
proof -
  have d: "\<forall>t. length (enc_a t) = 2" by (simp add: enc_a_def)
  show ?thesis using pipeline_total [OF d] by simp
qed

end
